theory Spec2Isabelle
  imports Complex_Main "HOL-Library.Word"
begin

section \<open>Data model of the FBX mesh reader\<close>

text \<open>
  The development embeds \<^verbatim>\<open>FBXReader_Mesh.cpp\<close>: \<^verbatim>\<open>appendIndex\<close>,
  \<^verbatim>\<open>FBXReader::extractMesh\<close> and \<^verbatim>\<open>FBXReader::buildModelMesh\<close>.

  Conventions of the embedding.
  \<^item> A \<^verbatim>\<open>float\<close> component is a rational number: the code only compares the
    components for equality and adds them, and the embedding takes both exactly
    (there is no NaN and no rounding in the model).
  \<^item> A default-constructed \<^verbatim>\<open>glm\<close> vector is the zero vector.
  \<^item> Positions in a \<^verbatim>\<open>QVector\<close> and the output vertex indices are natural numbers;
    the values stored in the source index streams are signed and are \<open>int\<close>.
  \<^item> \<^verbatim>\<open>unsigned int\<close> counters are \<open>32 word\<close>; the \<^verbatim>\<open>int\<close> byte sizes and offsets of
    the buffer layout are \<open>int\<close>, taken without overflow.
  \<^item> The header \<^verbatim>\<open>FBXReader.h\<close> and the libraries \<^verbatim>\<open>gpu\<close>, \<^verbatim>\<open>model\<close> and \<^verbatim>\<open>draco\<close> are
    not among the sources. Their types appear here with the members that the three
    functions read and write.
\<close>

type_synonym vec2 = "rat \<times> rat"
type_synonym vec3 = "rat \<times> rat \<times> rat"
type_synonym vec4 = "rat \<times> rat \<times> rat \<times> rat"

definition zero2 :: vec2 where
  "zero2 = (0, 0)"

definition zero3 :: vec3 where
  "zero3 = (0, 0, 0)"

definition zero4 :: vec4 where
  "zero4 = (0, 0, 0, 0)"

text \<open>\<^verbatim>\<open>operator+=\<close> of \<^verbatim>\<open>glm::vec3\<close>: componentwise.\<close>

fun add3 :: "vec3 \<Rightarrow> vec3 \<Rightarrow> vec3" where
  "add3 (x, y, z) (x', y', z') = (x + x', y + y', z + z')"

text \<open>\<^verbatim>\<open>glm::vec3(color)\<close> of a \<^verbatim>\<open>glm::vec4\<close>: the first three components.\<close>

fun vec3_of_vec4 :: "vec4 \<Rightarrow> vec3" where
  "vec3_of_vec4 (r, g, b, a) = (r, g, b)"

subsection \<open>The GPU side: element formats, buffer views, the model mesh\<close>

datatype Dimension = SCALAR | VEC2 | VEC3 | VEC4

datatype ScalarType = FLOAT | UINT32 | UINT16 | UINT8 | NUINT8

datatype Semantic = XYZ | RGB | UV | XYZW

type_synonym Element = "Dimension \<times> ScalarType \<times> Semantic"

datatype Slot = NORMAL | TANGENT | COLOR | TEXCOORD | TEXCOORD1
  | SKIN_CLUSTER_INDEX | SKIN_CLUSTER_WEIGHT

text \<open>
  Modelled from the spec: \<^verbatim>\<open>gpu::Element\<close>, \<^verbatim>\<open>gpu::Stream\<close> and \<^verbatim>\<open>model::BufferView\<close>,
  whose declarations are missing. An element format is the triple of dimension,
  scalar type and semantic that the source passes to \<^verbatim>\<open>gpu::Element\<close>; a slot is one
  of the seven stream slots that it attaches; a view
  \<^verbatim>\<open>model::BufferView(attribBuffer, offset, size, element)\<close> is a window of the
  combined attribute buffer.
\<close>

record BufferView =
  v_offset :: int
  v_size :: int
  v_element :: Element

datatype Topology = TRIANGLES

text \<open>\<^verbatim>\<open>model::Mesh::Part(startIndex, numIndices, baseVertex, topology)\<close>.\<close>

record Part =
  startIndex :: int
  numIndices :: int
  baseVertex :: int
  topology :: Topology

text \<open>
  Modelled from the spec: \<^verbatim>\<open>model::Mesh\<close>, whose declaration is missing, as
  \<^verbatim>\<open>buildModelMesh\<close> fills it: the byte sizes of the vertex, attribute and index
  buffers, the attribute views by stream slot, and the part ranges. The payload
  bytes of the buffers are not part of the model.
\<close>

record GpuMesh =
  vertexBufferSize :: int
  attribBufferSize :: int
  attributeBuffers :: "Slot \<rightharpoonup> BufferView"
  indexBufferSize :: nat
  partBuffer :: "Part list"

text \<open>
  Reading a view out of a buffer: the \<open>v_size\<close> bytes from \<open>v_offset\<close> on.
\<close>

definition viewBytes :: "8 word list \<Rightarrow> BufferView \<Rightarrow> 8 word list" where
  "viewBytes buf v = take (nat (v_size v)) (drop (nat (v_offset v)) buf)"

subsection \<open>The extracted mesh\<close>

text \<open>
  Modelled from the spec: \<^verbatim>\<open>FBXMeshPart\<close>, \<^verbatim>\<open>FBXCluster\<close> and \<^verbatim>\<open>FBXMesh\<close>, whose
  declarations (in \<^verbatim>\<open>FBXReader.h\<close>) are missing: a part with its three index lists,
  and the mesh with its parts, its per-vertex arrays, the skinning arrays and the
  GPU mesh. The sizes \<^verbatim>\<open>sizeof(glm::vec3) = 12\<close>, \<^verbatim>\<open>sizeof(glm::vec2) = 8\<close> and
  \<^verbatim>\<open>sizeof(int) = 4\<close> are written as numbers below.
\<close>

record FBXMeshPart =
  quadIndices :: "nat list"
  quadTrianglesIndices :: "nat list"
  triangleIndices :: "nat list"

definition emptyPart :: FBXMeshPart where
  "emptyPart = \<lparr>quadIndices = [], quadTrianglesIndices = [], triangleIndices = []\<rparr>"

text \<open>Of \<^verbatim>\<open>FBXCluster\<close> only the number of clusters is read here.\<close>

record FBXCluster =
  jointIndex :: int

text \<open>
  \<^verbatim>\<open>FBXMesh\<close>; \<open>gpu_mesh\<close> is the member \<^verbatim>\<open>_mesh\<close>, \<open>None\<close> while it is unset.
\<close>

record FBXMesh =
  parts :: "FBXMeshPart list"
  vertices :: "vec3 list"
  normals :: "vec3 list"
  tangents :: "vec3 list"
  colors :: "vec3 list"
  texCoords :: "vec2 list"
  texCoords1 :: "vec2 list"
  clusterIndices :: "16 word list"
  clusterWeights :: "8 word list"
  clusters :: "FBXCluster list"
  meshIndex :: "32 word"
  gpu_mesh :: "GpuMesh option"

section \<open>buildModelMesh\<close>

text \<open>
  The two \<^verbatim>\<open>foreach\<close> loops that add up
  \<^verbatim>\<open>part.quadTrianglesIndices.size() + part.triangleIndices.size()\<close> into an
  \<^verbatim>\<open>unsigned int\<close>.
\<close>

definition totalIndexCount :: "FBXMeshPart list \<Rightarrow> 32 word" where
  "totalIndexCount ps =
     foldl (\<lambda>total part. total
              + of_nat (length (quadTrianglesIndices part) + length (triangleIndices part)))
       0 ps"

text \<open>
  One round of the loop that builds the part ranges; the loop state is
  \<open>(indexNum, offset, parts)\<close>.
\<close>

definition partStep :: "int \<times> int \<times> Part list \<Rightarrow> FBXMeshPart \<Rightarrow> int \<times> int \<times> Part list" where
  "partStep s part =
     (case s of (indexNum, offset, ps) \<Rightarrow>
        let modelPart = \<lparr>startIndex = indexNum, numIndices = 0, baseVertex = 0,
                         topology = TRIANGLES\<rparr>;
            nq = int (length (quadTrianglesIndices part));
            (offset1, indexNum1, modelPart1) =
              (if nq \<noteq> 0
               then (offset + nq * 4, indexNum + nq,
                     modelPart\<lparr>numIndices := numIndices modelPart + nq\<rparr>)
               else (offset, indexNum, modelPart));
            nt = int (length (triangleIndices part));
            (offset2, indexNum2, modelPart2) =
              (if nt \<noteq> 0
               then (offset1 + nt * 4, indexNum1 + nt,
                     modelPart1\<lparr>numIndices := numIndices modelPart1 + nt\<rparr>)
               else (offset1, indexNum1, modelPart1))
        in (indexNum2, offset2, ps @ [modelPart2]))"

definition partRanges :: "FBXMeshPart list \<Rightarrow> Part list" where
  "partRanges ps = snd (snd (foldl partStep (0, 0, []) ps))"

definition noIndicesMessage :: "string \<Rightarrow> string" where
  "noIndicesMessage url = ''buildModelMesh failed -- no indices, url = '' @ url"

definition noVerticesMessage :: "string \<Rightarrow> string" where
  "noVerticesMessage url = ''buildModelMesh failed -- no vertices, url = '' @ url"

definition noPartsMessage :: "string \<Rightarrow> string" where
  "noPartsMessage url = ''buildModelMesh failed -- no parts, url = '' @ url"

text \<open>The byte sizes of the attribute channels, in the order of the source.\<close>

definition normalsSize :: "FBXMesh \<Rightarrow> int" where
  "normalsSize m = int (length (normals m)) * 12"

definition tangentsSize :: "FBXMesh \<Rightarrow> int" where
  "tangentsSize m = int (length (tangents m)) * 12"

definition colorsSize :: "FBXMesh \<Rightarrow> int" where
  "colorsSize m = int (length (colors m)) * 12"

definition texCoordsSize :: "FBXMesh \<Rightarrow> int" where
  "texCoordsSize m = int (length (texCoords m)) * 8"

definition texCoords1Size :: "FBXMesh \<Rightarrow> int" where
  "texCoords1Size m = int (length (texCoords1 m)) * 8"

definition UINT8_MAX :: nat where
  "UINT8_MAX = 255"

definition clusterIndicesSize :: "FBXMesh \<Rightarrow> int" where
  "clusterIndicesSize m =
     (let s = int (length (clusterIndices m)) * 1
      in if length (clusters m) > UINT8_MAX then s * 2 else s)"

definition clusterWeightsSize :: "FBXMesh \<Rightarrow> int" where
  "clusterWeightsSize m = int (length (clusterWeights m)) * 1"

definition normalsOffset :: "FBXMesh \<Rightarrow> int" where
  "normalsOffset m = 0"

definition tangentsOffset :: "FBXMesh \<Rightarrow> int" where
  "tangentsOffset m = normalsOffset m + normalsSize m"

definition colorsOffset :: "FBXMesh \<Rightarrow> int" where
  "colorsOffset m = tangentsOffset m + tangentsSize m"

definition texCoordsOffset :: "FBXMesh \<Rightarrow> int" where
  "texCoordsOffset m = colorsOffset m + colorsSize m"

definition texCoords1Offset :: "FBXMesh \<Rightarrow> int" where
  "texCoords1Offset m = texCoordsOffset m + texCoordsSize m"

definition clusterIndicesOffset :: "FBXMesh \<Rightarrow> int" where
  "clusterIndicesOffset m = texCoords1Offset m + texCoords1Size m"

definition clusterWeightsOffset :: "FBXMesh \<Rightarrow> int" where
  "clusterWeightsOffset m = clusterIndicesOffset m + clusterIndicesSize m"

definition totalAttributeSize :: "FBXMesh \<Rightarrow> int" where
  "totalAttributeSize m = clusterWeightsOffset m + clusterWeightsSize m"

text \<open>
  The chain of \<^verbatim>\<open>mesh->addAttribute\<close> calls, each under its own test, in the order
  of the source.
\<close>

definition addAttribute :: "Slot \<Rightarrow> BufferView \<Rightarrow> (Slot \<rightharpoonup> BufferView) \<Rightarrow> (Slot \<rightharpoonup> BufferView)" where
  "addAttribute slot view attrs = attrs(slot \<mapsto> view)"

definition attachAttributes :: "FBXMesh \<Rightarrow> (Slot \<rightharpoonup> BufferView)" where
  "attachAttributes m =
     (let a0 = Map.empty;
          a1 = (if normalsSize m \<noteq> 0
                then addAttribute NORMAL
                       \<lparr>v_offset = normalsOffset m, v_size = normalsSize m,
                        v_element = (VEC3, FLOAT, XYZ)\<rparr> a0
                else a0);
          a2 = (if tangentsSize m \<noteq> 0
                then addAttribute TANGENT
                       \<lparr>v_offset = tangentsOffset m, v_size = tangentsSize m,
                        v_element = (VEC3, FLOAT, XYZ)\<rparr> a1
                else a1);
          a3 = (if colorsSize m \<noteq> 0
                then addAttribute COLOR
                       \<lparr>v_offset = colorsOffset m, v_size = colorsSize m,
                        v_element = (VEC3, FLOAT, RGB)\<rparr> a2
                else a2);
          a4 = (if texCoordsSize m \<noteq> 0
                then addAttribute TEXCOORD
                       \<lparr>v_offset = texCoordsOffset m, v_size = texCoordsSize m,
                        v_element = (VEC2, FLOAT, UV)\<rparr> a3
                else a3);
          a5 = (if texCoords1Size m \<noteq> 0
                then addAttribute TEXCOORD1
                       \<lparr>v_offset = texCoords1Offset m, v_size = texCoords1Size m,
                        v_element = (VEC2, FLOAT, UV)\<rparr> a4
                else if texCoordsSize m \<noteq> 0
                then addAttribute TEXCOORD1
                       \<lparr>v_offset = texCoordsOffset m, v_size = texCoordsSize m,
                        v_element = (VEC2, FLOAT, UV)\<rparr> a4
                else a4);
          a6 = (if clusterIndicesSize m \<noteq> 0
                then (if length (clusters m) < UINT8_MAX
                      then addAttribute SKIN_CLUSTER_INDEX
                             \<lparr>v_offset = clusterIndicesOffset m, v_size = clusterIndicesSize m,
                              v_element = (VEC4, UINT8, XYZW)\<rparr> a5
                      else addAttribute SKIN_CLUSTER_INDEX
                             \<lparr>v_offset = clusterIndicesOffset m, v_size = clusterIndicesSize m,
                              v_element = (VEC4, UINT16, XYZW)\<rparr> a5)
                else a5);
          a7 = (if clusterWeightsSize m \<noteq> 0
                then addAttribute SKIN_CLUSTER_WEIGHT
                       \<lparr>v_offset = clusterWeightsOffset m, v_size = clusterWeightsSize m,
                        v_element = (VEC4, NUINT8, XYZW)\<rparr> a6
                else a6)
      in a7)"

text \<open>
  \<^verbatim>\<open>buildModelMesh(extractedMesh, url)\<close> returns the mesh, whose \<^verbatim>\<open>_mesh\<close> it may
  have set, and the lines it wrote to the debug log.  The \<^verbatim>\<open>assert\<close> in the loop
  that narrows the cluster indices and the call \<^verbatim>\<open>evalPartBound(0)\<close> act on the
  payload only, which the model leaves out.
\<close>

definition buildModelMesh :: "FBXMesh \<Rightarrow> string \<Rightarrow> FBXMesh \<times> string list" where
  "buildModelMesh extractedMesh url =
     (let totalSourceIndices = totalIndexCount (parts extractedMesh)
      in if totalSourceIndices = 0 then (extractedMesh, [noIndicesMessage url])
         else if length (vertices extractedMesh) = 0
         then (extractedMesh, [noVerticesMessage url])
         else
           let totalIndices = totalIndexCount (parts extractedMesh)
           in if totalIndices = 0 then (extractedMesh, [noIndicesMessage url])
              else
                let ps = partRanges (parts extractedMesh)
                in if length ps \<noteq> 0
                   then (extractedMesh\<lparr>gpu_mesh := Some
                           \<lparr>vertexBufferSize = int (length (vertices extractedMesh)) * 12,
                            attribBufferSize = totalAttributeSize extractedMesh,
                            attributeBuffers = attachAttributes extractedMesh,
                            indexBufferSize = unat totalIndices * 4,
                            partBuffer = ps\<rparr>\<rparr>, [])
                   else (extractedMesh, [noPartsMessage url]))"

section \<open>appendIndex\<close>

text \<open>
  The key of the vertex hash; \<^verbatim>\<open>operator==\<close> compares the three members, which
  is the equality of the record.
\<close>

record Vertex =
  originalIndex :: int
  texCoord :: vec2
  texCoord1 :: vec2

record AttributeData =
  attr_texCoords :: "vec2 list"
  attr_texCoordIndices :: "int list"
  attr_name :: string
  attr_index :: int

text \<open>
  Modelled from the spec: \<^verbatim>\<open>ExtractedMesh\<close>, whose declaration (in \<^verbatim>\<open>FBXReader.h\<close>)
  is missing: the mesh, the mapping from source vertex index to output vertex
  index, the keys of the parts and the names of the UV sets. \<open>newIndices\<close> is a
  multi-hash, kept as the list of its insertions.
\<close>

record ExtractedMesh =
  mesh :: FBXMesh
  newIndices :: "(int \<times> nat) list"
  partMaterialTextures :: "(int \<times> int) list"
  texcoordSetMap :: "string \<rightharpoonup> nat"

text \<open>
  \<^verbatim>\<open>MeshData\<close>. The members \<^verbatim>\<open>vertices\<close>, \<^verbatim>\<open>normals\<close>, \<^verbatim>\<open>colors\<close> and
  \<^verbatim>\<open>texCoords\<close> of the source data carry the prefix \<open>d_\<close>, to keep them apart
  from the members of \<open>FBXMesh\<close> with the same names.
\<close>

record MeshData =
  extracted :: ExtractedMesh
  d_vertices :: "vec3 list"
  polygonIndices :: "int list"
  normalsByVertex :: bool
  d_normals :: "vec3 list"
  normalIndices :: "int list"
  colorsByVertex :: bool
  averageColor :: vec4
  d_colors :: "vec4 list"
  colorIndices :: "int list"
  d_texCoords :: "vec2 list"
  texCoordIndices :: "int list"
  indices :: "Vertex \<rightharpoonup> nat"
  attributes :: "AttributeData list"

text \<open>
  The values that \<^verbatim>\<open>appendIndex(data, indices, index)\<close> resolves for the corner
  \<open>index\<close>, each as the source computes it, with the zero vector where a lookup
  is out of range.
\<close>

definition cornerVertexIndex :: "MeshData \<Rightarrow> nat \<Rightarrow> int" where
  "cornerVertexIndex data index =
     (let vertexIndex = polygonIndices data ! index
      in if vertexIndex < 0 then - vertexIndex - 1 else vertexIndex)"

definition cornerPosition :: "MeshData \<Rightarrow> nat \<Rightarrow> vec3" where
  "cornerPosition data index =
     (let vertexIndex = cornerVertexIndex data index
      in if vertexIndex < int (length (d_vertices data))
         then d_vertices data ! nat vertexIndex else zero3)"

definition cornerNormal :: "MeshData \<Rightarrow> nat \<Rightarrow> vec3" where
  "cornerNormal data index =
     (let vertexIndex = cornerVertexIndex data index;
          normalIndex = (if normalsByVertex data then vertexIndex else int index)
      in if normalIndices data = []
         then (if normalIndex < int (length (d_normals data))
               then d_normals data ! nat normalIndex else zero3)
         else if normalIndex < int (length (normalIndices data))
         then (let normalIndex' = normalIndices data ! nat normalIndex
               in if normalIndex' \<ge> 0 \<and> normalIndex' < int (length (d_normals data))
                  then d_normals data ! nat normalIndex' else zero3)
         else zero3)"

definition hasColors :: "MeshData \<Rightarrow> bool" where
  "hasColors data = (length (d_colors data) > 1)"

definition cornerColor :: "MeshData \<Rightarrow> nat \<Rightarrow> vec4" where
  "cornerColor data index =
     (let vertexIndex = cornerVertexIndex data index
      in if hasColors data
         then (let colorIndex = (if colorsByVertex data then vertexIndex else int index)
               in if colorIndices data = []
                  then (if colorIndex < int (length (d_colors data))
                        then d_colors data ! nat colorIndex else zero4)
                  else if colorIndex < int (length (colorIndices data))
                  then (let colorIndex' = colorIndices data ! nat colorIndex
                        in if colorIndex' \<ge> 0 \<and> colorIndex' < int (length (d_colors data))
                           then d_colors data ! nat colorIndex' else zero4)
                  else zero4)
         else zero4)"

definition cornerTexCoord :: "MeshData \<Rightarrow> nat \<Rightarrow> vec2" where
  "cornerTexCoord data index =
     (if texCoordIndices data = []
      then (if index < length (d_texCoords data) then d_texCoords data ! index else zero2)
      else if index < length (texCoordIndices data)
      then (let texCoordIndex = texCoordIndices data ! index
            in if texCoordIndex \<ge> 0 \<and> texCoordIndex < int (length (d_texCoords data))
               then d_texCoords data ! nat texCoordIndex else zero2)
      else zero2)"

definition hasMoreTexcoords :: "MeshData \<Rightarrow> bool" where
  "hasMoreTexcoords data = (length (attributes data) > 1)"

definition cornerTexCoord1 :: "MeshData \<Rightarrow> nat \<Rightarrow> vec2" where
  "cornerTexCoord1 data index =
     (if hasMoreTexcoords data
      then (let a = attributes data ! 1
            in if attr_texCoordIndices a = []
               then (if index < length (attr_texCoords a) then attr_texCoords a ! index
                     else zero2)
               else if index < length (attr_texCoordIndices a)
               then (let texCoordIndex = attr_texCoordIndices a ! index
                     in if texCoordIndex \<ge> 0 \<and> texCoordIndex < int (length (attr_texCoords a))
                        then attr_texCoords a ! nat texCoordIndex else zero2)
               else zero2)
      else zero2)"

text \<open>The key \<^verbatim>\<open>vertex\<close> that the corner is looked up under.\<close>

definition cornerVertex :: "MeshData \<Rightarrow> nat \<Rightarrow> Vertex" where
  "cornerVertex data index =
     \<lparr>originalIndex = cornerVertexIndex data index,
      texCoord = cornerTexCoord data index,
      texCoord1 = cornerTexCoord1 data index\<rparr>"

text \<open>
  \<^verbatim>\<open>appendIndex(data, indices, index)\<close> returns the data and the index list
  \<open>idxs\<close> that it was given by reference. In the branch of a key that is already
  there, \<^verbatim>\<open>normals[*it] += normal\<close> is a list update; the lemmas
  \<open>appendIndex_storedInRange\<close> and \<open>stored_index_in_range\<close> below show that the
  stored index is in range in every state that the loop over the polygons reaches.
\<close>

definition appendIndex :: "MeshData \<Rightarrow> nat list \<Rightarrow> nat \<Rightarrow> MeshData \<times> nat list" where
  "appendIndex data idxs index =
     (if index \<ge> length (polygonIndices data) then (data, idxs)
      else
        let vertexIndex = cornerVertexIndex data index;
            vertex = cornerVertex data index;
            position = cornerPosition data index;
            normal = cornerNormal data index;
            color = cornerColor data index;
            ex = extracted data;
            m = mesh ex
        in case indices data vertex of
             None \<Rightarrow>
               let newIndex = length (vertices m)
               in (data\<lparr>indices := (indices data)(vertex \<mapsto> newIndex),
                        extracted := ex
                          \<lparr>newIndices := newIndices ex @ [(vertexIndex, newIndex)],
                           mesh := m
                             \<lparr>vertices := vertices m @ [position],
                              normals := normals m @ [normal],
                              texCoords := texCoords m @ [texCoord vertex],
                              colors := (if hasColors data
                                         then colors m @ [vec3_of_vec4 color] else colors m),
                              texCoords1 := (if hasMoreTexcoords data
                                             then texCoords1 m @ [texCoord1 vertex]
                                             else texCoords1 m)\<rparr>\<rparr>\<rparr>,
                   idxs @ [newIndex])
           | Some it \<Rightarrow>
               (data\<lparr>extracted := ex
                  \<lparr>mesh := m\<lparr>normals := (normals m)[it := add3 (normals m ! it) normal]\<rparr>\<rparr>\<rparr>,
                idxs @ [it]))"

section \<open>extractMesh\<close>

subsection \<open>Mesh parts by material and texture\<close>

text \<open>
  \<^verbatim>\<open>int& partIndex = materialTextureParts[materialTexture]\<close> and the test that
  follows it: a key that is not in the hash reads as 0, and then a new part is
  appended and the key is given the new size of the part list.
\<close>

definition partFor ::
  "int \<times> int \<Rightarrow> ((int \<times> int) \<rightharpoonup> nat) \<Rightarrow> ExtractedMesh
     \<Rightarrow> nat \<times> ((int \<times> int) \<rightharpoonup> nat) \<times> ExtractedMesh" where
  "partFor materialTexture materialTextureParts ex =
     (let partIndex = (case materialTextureParts materialTexture of None \<Rightarrow> 0 | Some p \<Rightarrow> p)
      in if partIndex = 0
         then
           let ex' = ex\<lparr>partMaterialTextures := partMaterialTextures ex @ [materialTexture],
                        mesh := (mesh ex)\<lparr>parts := parts (mesh ex) @ [emptyPart]\<rparr>\<rparr>;
               partIndex' = length (parts (mesh ex'))
           in (partIndex', materialTextureParts(materialTexture \<mapsto> partIndex'), ex')
         else (partIndex, materialTextureParts, ex))"

text \<open>
  Writing through the reference \<^verbatim>\<open>FBXMeshPart& part\<close>, which is
  \<^verbatim>\<open>parts[partIndex - 1]\<close>; lemma \<open>partFor_props\<close> below shows that this position
  exists.
\<close>

definition setPart :: "ExtractedMesh \<Rightarrow> nat \<Rightarrow> FBXMeshPart \<Rightarrow> ExtractedMesh" where
  "setPart ex k part = ex\<lparr>mesh := (mesh ex)\<lparr>parts := (parts (mesh ex))[k := part]\<rparr>\<rparr>"

subsection \<open>The compressed path\<close>

text \<open>
  Modelled from the spec: the decoded \<^verbatim>\<open>draco::Mesh\<close> of the external codec, as the
  code reads it: the number of points, for each attribute that is present the value
  at a point (\<^verbatim>\<open>mapped_index\<close> followed by \<^verbatim>\<open>ConvertValue\<close>), and the faces as triples
  of point indices. Any attribute may be absent.
\<close>

record DracoMesh =
  num_points :: nat
  positionAttribute :: "(nat \<Rightarrow> vec3) option"
  normalAttribute :: "(nat \<Rightarrow> vec3) option"
  texCoordAttribute :: "(nat \<Rightarrow> vec2) option"
  extraTexCoordAttribute :: "(nat \<Rightarrow> vec2) option"
  colorAttribute :: "(nat \<Rightarrow> vec3) option"
  matTexAttribute :: "(nat \<Rightarrow> 16 word) option"
  faces :: "(nat \<times> nat \<times> nat) list"

definition pushAttribute :: "(nat \<Rightarrow> 'a) option \<Rightarrow> nat \<Rightarrow> 'a list \<Rightarrow> 'a list" where
  "pushAttribute attribute i xs = (case attribute of None \<Rightarrow> xs | Some f \<Rightarrow> xs @ [f i])"

text \<open>One round of the loop over the points.\<close>

definition dracoVertexStep :: "DracoMesh \<Rightarrow> ExtractedMesh \<Rightarrow> nat \<Rightarrow> ExtractedMesh" where
  "dracoVertexStep dracoMesh ex i =
     ex\<lparr>mesh := (mesh ex)
          \<lparr>vertices := pushAttribute (positionAttribute dracoMesh) i (vertices (mesh ex)),
           normals := pushAttribute (normalAttribute dracoMesh) i (normals (mesh ex)),
           texCoords := pushAttribute (texCoordAttribute dracoMesh) i (texCoords (mesh ex)),
           texCoords1 :=
             pushAttribute (extraTexCoordAttribute dracoMesh) i (texCoords1 (mesh ex)),
           colors := pushAttribute (colorAttribute dracoMesh) i (colors (mesh ex))\<rparr>,
        newIndices := newIndices ex @ [(int i, i)]\<rparr>"

text \<open>One round of the loop over the faces.\<close>

definition dracoFaceStep ::
  "DracoMesh \<Rightarrow> ExtractedMesh \<times> ((int \<times> int) \<rightharpoonup> nat) \<Rightarrow> nat \<times> nat \<times> nat
     \<Rightarrow> ExtractedMesh \<times> ((int \<times> int) \<rightharpoonup> nat)" where
  "dracoFaceStep dracoMesh s face =
     (case s of (ex, materialTextureParts) \<Rightarrow>
      case face of (firstCorner, secondCorner, thirdCorner) \<Rightarrow>
        let materialID = (case matTexAttribute dracoMesh of None \<Rightarrow> 0
                          | Some f \<Rightarrow> f firstCorner);
            materialTexture = (uint materialID, 0);
            (partIndexPlusOne, materialTextureParts', ex') =
              partFor materialTexture materialTextureParts ex;
            part = parts (mesh ex') ! (partIndexPlusOne - 1)
        in (setPart ex' (partIndexPlusOne - 1)
              (part\<lparr>triangleIndices :=
                       triangleIndices part @ [firstCorner, secondCorner, thirdCorner]\<rparr>),
            materialTextureParts'))"

text \<open>The branch for one child node \<^verbatim>\<open>DracoMesh\<close>.\<close>

definition decodeDracoMesh :: "ExtractedMesh \<Rightarrow> DracoMesh \<Rightarrow> ExtractedMesh" where
  "decodeDracoMesh ex dracoMesh =
     (let ex1 = foldl (dracoVertexStep dracoMesh) ex [0 ..< num_points dracoMesh]
      in fst (foldl (dracoFaceStep dracoMesh) (ex1, Map.empty) (faces dracoMesh)))"

subsection \<open>The polygon path\<close>

text \<open>
  \<^verbatim>\<open>while (endIndex < size && polygonIndices.at(endIndex++) >= 0);\<close>
\<close>

function scanEnd :: "int list \<Rightarrow> nat \<Rightarrow> nat" where
  "scanEnd polys endIndex =
     (if endIndex < length polys
      then (if polys ! endIndex \<ge> 0 then scanEnd polys (endIndex + 1) else endIndex + 1)
      else endIndex)"
  by pat_completeness auto
termination
  by (relation "measure (\<lambda>(polys, endIndex). length polys - endIndex)") auto

declare scanEnd.simps [simp del]

lemma appendIndex_polygonIndices:
  "appendIndex data idxs index = (data', idxs') \<Longrightarrow> polygonIndices data' = polygonIndices data"
  by (auto simp: appendIndex_def Let_def split: if_splits option.splits)

text \<open>
  The loop \<^verbatim>\<open>for (int nextIndex = beginIndex + 1;; )\<close> of the triangle fan, from
  the state in which \<open>nextIndex\<close> has the given value.
\<close>

function fanLoop :: "MeshData \<Rightarrow> nat list \<Rightarrow> nat \<Rightarrow> nat \<Rightarrow> MeshData \<times> nat list" where
  "fanLoop data tri beginIndex nextIndex =
     (let (d1, t1) = appendIndex data tri beginIndex;
          (d2, t2) = appendIndex d1 t1 nextIndex;
          nextIndex' = nextIndex + 1;
          (d3, t3) = appendIndex d2 t2 nextIndex'
      in if nextIndex' \<ge> length (polygonIndices d3) \<or> polygonIndices d3 ! nextIndex' < 0
         then (d3, t3)
         else fanLoop d3 t3 beginIndex nextIndex')"
  by pat_completeness auto
termination
proof (relation "measure (\<lambda>(data, tri, beginIndex, nextIndex).
                             length (polygonIndices data) - nextIndex)", goal_cases)
  case 1
  show ?case by simp
next
  case (2 data tri beginIndex nextIndex x1 d1 t1 x2 d2 t2 n' x3 d3 t3)
  then have "polygonIndices d3 = polygonIndices data"
    by (metis appendIndex_polygonIndices)
  with 2 show ?case by auto
qed

declare fanLoop.simps [simp del]


text \<open>
  The body of the loop over the polygons. The loop state is the data, the hash
  \<^verbatim>\<open>materialTextureParts\<close>, \<^verbatim>\<open>polygonIndex\<close> and \<^verbatim>\<open>beginIndex\<close>.
\<close>

type_synonym loopState = "MeshData \<times> ((int \<times> int) \<rightharpoonup> nat) \<times> nat \<times> nat"

definition polygonMaterialTexture :: "int list \<Rightarrow> int list \<Rightarrow> nat \<Rightarrow> int \<times> int" where
  "polygonMaterialTexture materials textures polygonIndex =
     (if polygonIndex < length materials then materials ! polygonIndex else 0,
      if polygonIndex < length textures then textures ! polygonIndex else 0)"

definition polygonStep :: "int list \<Rightarrow> int list \<Rightarrow> loopState \<Rightarrow> loopState" where
  "polygonStep materials textures s =
     (case s of (data, materialTextureParts, polygonIndex, beginIndex) \<Rightarrow>
        let endIndex = scanEnd (polygonIndices data) beginIndex;
            materialTexture = polygonMaterialTexture materials textures polygonIndex;
            (partIndex, materialTextureParts', ex) =
              partFor materialTexture materialTextureParts (extracted data);
            data0 = data\<lparr>extracted := ex\<rparr>;
            part = parts (mesh ex) ! (partIndex - 1)
        in if endIndex - beginIndex = 4
           then
             let (d1, q1) = appendIndex data0 (quadIndices part) beginIndex;
                 (d2, q2) = appendIndex d1 q1 (beginIndex + 1);
                 (d3, q3) = appendIndex d2 q2 (beginIndex + 2);
                 (d4, q4) = appendIndex d3 q3 (beginIndex + 3);
                 quadStartIndex = length q4 - 4;
                 i0 = q4 ! (quadStartIndex + 0);
                 i1 = q4 ! (quadStartIndex + 1);
                 i2 = q4 ! (quadStartIndex + 2);
                 i3 = q4 ! (quadStartIndex + 3);
                 part' = part\<lparr>quadIndices := q4,
                               quadTrianglesIndices :=
                                 quadTrianglesIndices part @ [i0, i1, i3, i1, i2, i3]\<rparr>
             in (d4\<lparr>extracted := setPart (extracted d4) (partIndex - 1) part'\<rparr>,
                 materialTextureParts', polygonIndex + 1, beginIndex + 4)
           else
             let (d', t') = fanLoop data0 (triangleIndices part) beginIndex (beginIndex + 1);
                 part' = part\<lparr>triangleIndices := t'\<rparr>
             in (d'\<lparr>extracted := setPart (extracted d') (partIndex - 1) part'\<rparr>,
                 materialTextureParts', polygonIndex + 1, endIndex))"

lemma scanEnd_ge: "endIndex \<le> scanEnd polys endIndex"
proof (induction polys endIndex rule: scanEnd.induct)
  case (1 polys endIndex)
  then show ?case by (subst scanEnd.simps) auto
qed

lemma scanEnd_greater: "endIndex < length polys \<Longrightarrow> endIndex < scanEnd polys endIndex"
  using scanEnd_ge [of "endIndex + 1" polys] by (subst scanEnd.simps) auto

lemma scanEnd_le: "endIndex \<le> length polys \<Longrightarrow> scanEnd polys endIndex \<le> length polys"
proof (induction polys endIndex rule: scanEnd.induct)
  case (1 polys endIndex)
  then show ?case by (subst scanEnd.simps) auto
qed

lemma fanLoop_polygonIndices:
  "fanLoop data tri beginIndex nextIndex = (data', tri')
     \<Longrightarrow> polygonIndices data' = polygonIndices data"
proof (induction data tri beginIndex nextIndex rule: fanLoop.induct)
  case (1 data tri beginIndex nextIndex)
  obtain d1 t1 where a1: "appendIndex data tri beginIndex = (d1, t1)" by fastforce
  obtain d2 t2 where a2: "appendIndex d1 t1 nextIndex = (d2, t2)" by fastforce
  obtain d3 t3 where a3: "appendIndex d2 t2 (nextIndex + 1) = (d3, t3)" by fastforce
  have p3: "polygonIndices d3 = polygonIndices data"
    using a1 a2 a3 by (metis appendIndex_polygonIndices)
  show ?case
  proof (cases "nextIndex + 1 \<ge> length (polygonIndices d3)
                  \<or> polygonIndices d3 ! (nextIndex + 1) < 0")
    case True
    with "1.prems" a1 a2 a3 p3 show ?thesis
      by (subst (asm) fanLoop.simps) (simp add: Let_def)
  next
    case False
    with "1.prems" a1 a2 a3 have "fanLoop d3 t3 beginIndex (nextIndex + 1) = (data', tri')"
      by (subst (asm) fanLoop.simps) (simp add: Let_def)
    with "1.IH" [OF a1 [symmetric] refl a2 [symmetric] refl refl a3 [symmetric] refl False] p3
    show ?thesis by simp
  qed
qed

lemma polygonStep_quad:
  assumes "partFor (polygonMaterialTexture materials textures polygonIndex) mtp (extracted data)
             = (partIndex, mtp1, ex)"
    and "scanEnd (polygonIndices data) beginIndex - beginIndex = 4"
    and "appendIndex (data\<lparr>extracted := ex\<rparr>)
           (quadIndices (parts (mesh ex) ! (partIndex - 1))) beginIndex = (d1, q1)"
    and "appendIndex d1 q1 (beginIndex + 1) = (d2, q2)"
    and "appendIndex d2 q2 (beginIndex + 2) = (d3, q3)"
    and "appendIndex d3 q3 (beginIndex + 3) = (d4, q4)"
  shows "polygonStep materials textures (data, mtp, polygonIndex, beginIndex) =
           (d4\<lparr>extracted := setPart (extracted d4) (partIndex - 1)
                  ((parts (mesh ex) ! (partIndex - 1))
                     \<lparr>quadIndices := q4,
                      quadTrianglesIndices :=
                        quadTrianglesIndices (parts (mesh ex) ! (partIndex - 1))
                        @ [q4 ! (length q4 - 4), q4 ! (length q4 - 4 + 1),
                           q4 ! (length q4 - 4 + 3), q4 ! (length q4 - 4 + 1),
                           q4 ! (length q4 - 4 + 2), q4 ! (length q4 - 4 + 3)]\<rparr>)\<rparr>,
            mtp1, polygonIndex + 1, beginIndex + 4)"
  using assms by (simp add: polygonStep_def Let_def)

lemma polygonStep_fan:
  assumes "partFor (polygonMaterialTexture materials textures polygonIndex) mtp (extracted data)
             = (partIndex, mtp1, ex)"
    and "scanEnd (polygonIndices data) beginIndex - beginIndex \<noteq> 4"
    and "fanLoop (data\<lparr>extracted := ex\<rparr>)
           (triangleIndices (parts (mesh ex) ! (partIndex - 1))) beginIndex (beginIndex + 1)
           = (d', t')"
  shows "polygonStep materials textures (data, mtp, polygonIndex, beginIndex) =
           (d'\<lparr>extracted := setPart (extracted d') (partIndex - 1)
                  ((parts (mesh ex) ! (partIndex - 1))\<lparr>triangleIndices := t'\<rparr>)\<rparr>,
            mtp1, polygonIndex + 1, scanEnd (polygonIndices data) beginIndex)"
  using assms by (simp add: polygonStep_def Let_def)

lemma polygonStep_progress:
  assumes "polygonStep materials textures (data, mtp, polygonIndex, beginIndex)
             = (data', mtp', polygonIndex', beginIndex')"
  shows "polygonIndices data' = polygonIndices data"
    and "beginIndex < length (polygonIndices data) \<Longrightarrow> beginIndex < beginIndex'"
proof -
  obtain partIndex mtp1 ex where pf:
    "partFor (polygonMaterialTexture materials textures polygonIndex) mtp (extracted data)
       = (partIndex, mtp1, ex)"
    by (metis prod_cases3)
  let ?data0 = "data\<lparr>extracted := ex\<rparr>"
  let ?part = "parts (mesh ex) ! (partIndex - 1)"
  have "polygonIndices data' = polygonIndices data
        \<and> (beginIndex < length (polygonIndices data) \<longrightarrow> beginIndex < beginIndex')"
  proof (cases "scanEnd (polygonIndices data) beginIndex - beginIndex = 4")
    case True
    obtain d1 q1 where a1: "appendIndex ?data0 (quadIndices ?part) beginIndex = (d1, q1)"
      by fastforce
    obtain d2 q2 where a2: "appendIndex d1 q1 (beginIndex + 1) = (d2, q2)" by fastforce
    obtain d3 q3 where a3: "appendIndex d2 q2 (beginIndex + 2) = (d3, q3)" by fastforce
    obtain d4 q4 where a4: "appendIndex d3 q3 (beginIndex + 3) = (d4, q4)" by fastforce
    have "polygonIndices d4 = polygonIndices ?data0"
      using a1 a2 a3 a4 by (metis appendIndex_polygonIndices)
    with assms show ?thesis
      unfolding polygonStep_quad [OF pf True a1 a2 a3 a4] by auto
  next
    case False
    obtain d' t' where f: "fanLoop ?data0 (triangleIndices ?part) beginIndex (beginIndex + 1)
                             = (d', t')" by fastforce
    have "polygonIndices d' = polygonIndices ?data0"
      by (rule fanLoop_polygonIndices [OF f])
    with assms scanEnd_greater [of beginIndex "polygonIndices data"] show ?thesis
      unfolding polygonStep_fan [OF pf False f] by auto
  qed
  then show "polygonIndices data' = polygonIndices data"
    and "beginIndex < length (polygonIndices data) \<Longrightarrow> beginIndex < beginIndex'"
    by simp_all
qed

text \<open>
  \<^verbatim>\<open>for (int beginIndex = 0; beginIndex < data.polygonIndices.size(); polygonIndex++)\<close>
\<close>

function extractLoop :: "int list \<Rightarrow> int list \<Rightarrow> loopState \<Rightarrow> loopState" where
  "extractLoop materials textures (data, materialTextureParts, polygonIndex, beginIndex) =
     (if beginIndex < length (polygonIndices data)
      then extractLoop materials textures
             (polygonStep materials textures
                (data, materialTextureParts, polygonIndex, beginIndex))
      else (data, materialTextureParts, polygonIndex, beginIndex))"
  by pat_completeness auto
termination
proof (relation "measure (\<lambda>(materials, textures, data, mtp, polygonIndex, beginIndex).
                             length (polygonIndices data) - beginIndex)", goal_cases)
  case 1
  show ?case by simp
next
  case (2 materials textures data mtp polygonIndex beginIndex)
  obtain data' mtp' polygonIndex' beginIndex' where
    s: "polygonStep materials textures (data, mtp, polygonIndex, beginIndex)
          = (data', mtp', polygonIndex', beginIndex')"
    by (metis prod_cases4)
  from polygonStep_progress [OF s] 2 show ?case
    by (simp add: s)
qed

declare extractLoop.simps [simp del]

definition emptyMesh :: FBXMesh where
  "emptyMesh =
     \<lparr>parts = [], vertices = [], normals = [], tangents = [], colors = [],
      texCoords = [], texCoords1 = [], clusterIndices = [], clusterWeights = [],
      clusters = [], meshIndex = 0, gpu_mesh = None\<rparr>"

text \<open>
  \<^verbatim>\<open>extractMesh(object, meshIndex)\<close>. The first loop, over the children of the
  node, reads the source arrays into \<^verbatim>\<open>data\<close> with helpers that are not in this
  file; its outcome is the argument \<open>parsed\<close> (of which \<open>indices\<close> and, but for
  \<open>texcoordSetMap\<close>, \<open>extracted\<close> are still as constructed and are set so here),
  the lists \<open>materials\<close> and \<open>textures\<close>, and the decoded \<^verbatim>\<open>DracoMesh\<close> children in
  their order. The result is the extracted mesh and the incremented \<open>meshIndex\<close>.
\<close>

definition initialData :: "MeshData \<Rightarrow> 32 word \<Rightarrow> MeshData" where
  "initialData parsed meshIdx =
     parsed\<lparr>extracted :=
               \<lparr>mesh = emptyMesh\<lparr>meshIndex := meshIdx\<rparr>, newIndices = [],
                partMaterialTextures = [],
                texcoordSetMap = texcoordSetMap (extracted parsed)\<rparr>,
             indices := Map.empty\<rparr>"

definition extractMesh ::
  "MeshData \<Rightarrow> int list \<Rightarrow> int list \<Rightarrow> DracoMesh list \<Rightarrow> 32 word
     \<Rightarrow> ExtractedMesh \<times> 32 word" where
  "extractMesh parsed materials textures dracoMeshes meshIdx =
     (let data = initialData parsed meshIdx;
          isDracoMesh = (dracoMeshes \<noteq> []);
          data1 = data\<lparr>extracted := foldl decodeDracoMesh (extracted data) dracoMeshes\<rparr>
      in if \<not> isDracoMesh
         then (extracted (fst (extractLoop materials textures (data1, Map.empty, 0, 0))),
               meshIdx + 1)
         else (extracted data1, meshIdx + 1))"

section \<open>Properties of buildModelMesh\<close>

text \<open>The number of quad-triangle and triangle indices over all parts, unbounded.\<close>

definition sourceIndexCount :: "FBXMeshPart list \<Rightarrow> nat" where
  "sourceIndexCount ps =
     sum_list (map (\<lambda>part. length (quadTrianglesIndices part) + length (triangleIndices part)) ps)"

lemma foldl_total_acc:
  "foldl (\<lambda>total part. total
              + of_nat (length (quadTrianglesIndices part) + length (triangleIndices part)))
       (acc :: 32 word) ps = acc + of_nat (sourceIndexCount ps)"
  by (induction ps arbitrary: acc) (simp_all add: sourceIndexCount_def add.assoc)

lemma totalIndexCount_of_nat: "totalIndexCount ps = of_nat (sourceIndexCount ps)"
  unfolding totalIndexCount_def by (subst foldl_total_acc) simp

lemma totalIndexCount_nonzero_parts: "totalIndexCount ps \<noteq> 0 \<Longrightarrow> ps \<noteq> []"
  by (auto simp: totalIndexCount_def)

lemma foldl_partStep_length:
  "length (snd (snd (foldl partStep s ps))) = length (snd (snd s)) + length ps"
proof (induction ps arbitrary: s)
  case Nil
  show ?case by simp
next
  case (Cons p ps)
  have "length (snd (snd (partStep s p))) = Suc (length (snd (snd s)))"
    by (cases s) (simp add: partStep_def Let_def split: prod.splits)
  with Cons show ?case by simp
qed

lemma length_partRanges: "length (partRanges ps) = length ps"
  by (simp add: partRanges_def foldl_partStep_length)

lemma partRanges_Nil_iff: "partRanges ps = [] \<longleftrightarrow> ps = []"
  using length_partRanges [of ps] by (metis length_0_conv)

lemma buildModelMesh_built:
  assumes "totalIndexCount (parts m) \<noteq> 0" and "vertices m \<noteq> []"
  shows "buildModelMesh m url =
           (m\<lparr>gpu_mesh := Some
                \<lparr>vertexBufferSize = int (length (vertices m)) * 12,
                 attribBufferSize = totalAttributeSize m,
                 attributeBuffers = attachAttributes m,
                 indexBufferSize = unat (totalIndexCount (parts m)) * 4,
                 partBuffer = partRanges (parts m)\<rparr>\<rparr>, [])"
  using assms totalIndexCount_nonzero_parts [OF assms(1)]
  by (simp add: buildModelMesh_def Let_def partRanges_Nil_iff)

lemma messages_differ:
  "noIndicesMessage url \<noteq> noPartsMessage url" "noVerticesMessage url \<noteq> noPartsMessage url"
  by (simp_all add: noIndicesMessage_def noPartsMessage_def noVerticesMessage_def)

text \<open>
  Claim C7 (empty-mesh rejection). When the parts hold no quad-triangle and no
  triangle index at all, or the vertex array is empty, \<^verbatim>\<open>buildModelMesh\<close> leaves the
  mesh as it was (so \<^verbatim>\<open>_mesh\<close> stays unset) and writes exactly one diagnostic line
  that ends in the URL: the no-indices line when there are no indices, otherwise
  the no-vertices line. The function is total: there is no exceptional outcome.
\<close>

theorem C7_empty_mesh_rejected:
  assumes "sourceIndexCount (parts m) = 0 \<or> vertices m = []"
  shows "fst (buildModelMesh m url) = m
       \<and> (snd (buildModelMesh m url) = [noIndicesMessage url]
          \<or> snd (buildModelMesh m url) = [noVerticesMessage url])
       \<and> (sourceIndexCount (parts m) = 0 \<longrightarrow> snd (buildModelMesh m url) = [noIndicesMessage url])
       \<and> (sourceIndexCount (parts m) \<noteq> 0 \<and> sourceIndexCount (parts m) < 2 ^ 32
            \<longrightarrow> snd (buildModelMesh m url) = [noVerticesMessage url])"
proof (cases "totalIndexCount (parts m) = 0")
  case True
  then have "buildModelMesh m url = (m, [noIndicesMessage url])"
    by (simp add: buildModelMesh_def)
  moreover have "\<not> (sourceIndexCount (parts m) \<noteq> 0 \<and> sourceIndexCount (parts m) < 2 ^ 32)"
    using True by (auto simp: totalIndexCount_of_nat  word_of_nat_eq_0_iff dest: dvd_imp_le)
  ultimately show ?thesis by auto
next
  case False
  then have nz: "sourceIndexCount (parts m) \<noteq> 0"
    by (cases "sourceIndexCount (parts m) = 0") (simp_all add: totalIndexCount_of_nat)
  with assms have "vertices m = []" by simp
  with False have "buildModelMesh m url = (m, [noVerticesMessage url])"
    by (simp add: buildModelMesh_def)
  with nz show ?thesis by simp
qed


lemma attach_NORMAL:
  "attachAttributes m NORMAL =
     (if normals m = [] then None
      else Some \<lparr>v_offset = 0, v_size = normalsSize m, v_element = (VEC3, FLOAT, XYZ)\<rparr>)"
  by (simp add: attachAttributes_def Let_def addAttribute_def normalsSize_def normalsOffset_def)



lemma attach_TEXCOORD:
  "attachAttributes m TEXCOORD =
     (if texCoords m = [] then None
      else Some \<lparr>v_offset = normalsSize m + tangentsSize m + colorsSize m,
                 v_size = texCoordsSize m, v_element = (VEC2, FLOAT, UV)\<rparr>)"
  by (simp add: attachAttributes_def Let_def addAttribute_def texCoordsSize_def
      texCoordsOffset_def colorsOffset_def tangentsOffset_def normalsOffset_def)

lemma attach_TEXCOORD1:
  "attachAttributes m TEXCOORD1 =
     (if texCoords1 m \<noteq> []
      then Some \<lparr>v_offset = normalsSize m + tangentsSize m + colorsSize m + texCoordsSize m,
                 v_size = texCoords1Size m, v_element = (VEC2, FLOAT, UV)\<rparr>
      else if texCoords m \<noteq> []
      then Some \<lparr>v_offset = normalsSize m + tangentsSize m + colorsSize m,
                 v_size = texCoordsSize m, v_element = (VEC2, FLOAT, UV)\<rparr>
      else None)"
  by (simp add: attachAttributes_def Let_def addAttribute_def texCoordsSize_def
      texCoords1Size_def texCoords1Offset_def
      texCoordsOffset_def colorsOffset_def tangentsOffset_def normalsOffset_def)

lemma attach_SKIN_CLUSTER_INDEX:
  "attachAttributes m SKIN_CLUSTER_INDEX =
     (if clusterIndices m = [] then None
      else Some \<lparr>v_offset = normalsSize m + tangentsSize m + colorsSize m + texCoordsSize m
                            + texCoords1Size m,
                 v_size = clusterIndicesSize m,
                 v_element = (VEC4, if length (clusters m) < UINT8_MAX then UINT8 else UINT16,
                              XYZW)\<rparr>)"
  by (simp add: attachAttributes_def Let_def addAttribute_def clusterIndicesSize_def
      clusterIndicesOffset_def texCoords1Offset_def
      texCoordsOffset_def colorsOffset_def tangentsOffset_def normalsOffset_def)



definition exampleMesh :: FBXMesh where
  "exampleMesh =
     \<lparr>parts = [\<lparr>quadIndices = [], quadTrianglesIndices = [], triangleIndices = [0, 0, 0]\<rparr>],
      vertices = [(0, 0, 0)], normals = [(0, 0, 1)], tangents = [], colors = [],
      texCoords = [(0, 0)], texCoords1 = [],
      clusterIndices = [], clusterWeights = [], clusters = [],
      meshIndex = 0, gpu_mesh = None\<rparr>"

lemma exampleMesh_total: "totalIndexCount (parts exampleMesh) = 3"
  by (simp add: exampleMesh_def totalIndexCount_def)

text \<open>
  Claim C9 (the no-parts branch is dead). No call ends in the no-parts
  diagnostic: when the first validation passes the parts list is non-empty and the
  loop yields one part range per part, so every call either returns at the
  no-indices or no-vertices check with the mesh unchanged, or sets \<^verbatim>\<open>_mesh\<close> to a
  mesh with a non-empty part buffer.
\<close>

theorem C9_no_parts_unreachable:
  "snd (buildModelMesh m url) \<noteq> [noPartsMessage url]
   \<and> (totalIndexCount (parts m) \<noteq> 0 \<longrightarrow> parts m \<noteq> [] \<and> partRanges (parts m) \<noteq> [])
   \<and> ((fst (buildModelMesh m url) = m
         \<and> (snd (buildModelMesh m url) = [noIndicesMessage url]
            \<or> snd (buildModelMesh m url) = [noVerticesMessage url]))
       \<or> (\<exists>g. buildModelMesh m url = (m\<lparr>gpu_mesh := Some g\<rparr>, []) \<and> partBuffer g \<noteq> []))"
proof -
  have nonempty: "parts m \<noteq> [] \<and> partRanges (parts m) \<noteq> []"
    if "totalIndexCount (parts m) \<noteq> 0"
    using totalIndexCount_nonzero_parts [OF that] by (simp add: partRanges_Nil_iff)
  show ?thesis
  proof (cases "totalIndexCount (parts m) = 0")
    case True
    then have "buildModelMesh m url = (m, [noIndicesMessage url])"
      by (simp add: buildModelMesh_def)
    with True messages_differ(1) [of url] show ?thesis by simp
  next
    case False
    show ?thesis
    proof (cases "vertices m = []")
      case True
      with False have "buildModelMesh m url = (m, [noVerticesMessage url])"
        by (simp add: buildModelMesh_def)
      with nonempty [OF False] messages_differ(2) [of url] show ?thesis by simp
    next
      case nv: False
      let ?g = "\<lparr>vertexBufferSize = int (length (vertices m)) * 12,
                 attribBufferSize = totalAttributeSize m,
                 attributeBuffers = attachAttributes m,
                 indexBufferSize = unat (totalIndexCount (parts m)) * 4,
                 partBuffer = partRanges (parts m)\<rparr>"
      have b: "buildModelMesh m url = (m\<lparr>gpu_mesh := Some ?g\<rparr>, [])"
        by (rule buildModelMesh_built [OF False nv])
      have ex: "\<exists>g. buildModelMesh m url = (m\<lparr>gpu_mesh := Some g\<rparr>, []) \<and> partBuffer g \<noteq> []"
        by (rule exI [of _ ?g]) (simp add: b nonempty [OF False])
      have c1: "snd (buildModelMesh m url) \<noteq> [noPartsMessage url]"
        by (simp add: b)
      from c1 ex nonempty show ?thesis by blast
    qed
  qed
qed

theorem C9_no_parts_unreachable_witness:
  "totalIndexCount (parts exampleMesh) \<noteq> 0
   \<and> parts exampleMesh \<noteq> [] \<and> partRanges (parts exampleMesh) \<noteq> []
   \<and> snd (buildModelMesh exampleMesh ''m.fbx'') \<noteq> [noPartsMessage ''m.fbx'']"
  using C9_no_parts_unreachable [of exampleMesh "''m.fbx''"]
  by (simp add: exampleMesh_total)

text \<open>
  Claim C6 (UV1 aliases UV0). For a mesh that passes validation, with primary UVs
  and without secondary UVs, the built mesh has a \<^verbatim>\<open>TEXCOORD1\<close> attribute; its view
  has the offset, size and element format of the UV0 region, it equals the
  \<^verbatim>\<open>TEXCOORD\<close> view, and so both read the same bytes out of any attribute buffer.
\<close>

theorem C6_uv1_aliases_uv0:
  assumes "texCoords m \<noteq> []" and "texCoords1 m = []"
    and "totalIndexCount (parts m) \<noteq> 0" and "vertices m \<noteq> []"
  shows "\<exists>g. gpu_mesh (fst (buildModelMesh m url)) = Some g
           \<and> attributeBuffers g TEXCOORD1
               = Some \<lparr>v_offset = texCoordsOffset m, v_size = texCoordsSize m,
                       v_element = (VEC2, FLOAT, UV)\<rparr>
           \<and> attributeBuffers g TEXCOORD1 = attributeBuffers g TEXCOORD
           \<and> (\<forall>buf. viewBytes buf (the (attributeBuffers g TEXCOORD1))
                      = viewBytes buf (the (attributeBuffers g TEXCOORD)))"
  using assms(1,2)
  by (simp add: buildModelMesh_built [OF assms(3,4)] attach_TEXCOORD attach_TEXCOORD1
      texCoordsOffset_def colorsOffset_def tangentsOffset_def normalsOffset_def)

theorem C6_uv1_aliases_uv0_witness:
  "texCoords exampleMesh \<noteq> [] \<and> texCoords1 exampleMesh = []
   \<and> (\<exists>g. gpu_mesh (fst (buildModelMesh exampleMesh ''m.fbx'')) = Some g
           \<and> attributeBuffers g TEXCOORD1
               = Some \<lparr>v_offset = 12, v_size = 8, v_element = (VEC2, FLOAT, UV)\<rparr>
           \<and> attributeBuffers g TEXCOORD1 = attributeBuffers g TEXCOORD)"
proof -
  have h: "texCoords exampleMesh \<noteq> []" "texCoords1 exampleMesh = []"
    "totalIndexCount (parts exampleMesh) \<noteq> 0" "vertices exampleMesh \<noteq> []"
    by (simp_all add: exampleMesh_total) (simp_all add: exampleMesh_def)
  have "texCoordsOffset exampleMesh = 12" "texCoordsSize exampleMesh = 8"
    by (simp_all add: exampleMesh_def texCoordsSize_def normalsSize_def tangentsSize_def
        colorsSize_def texCoordsOffset_def colorsOffset_def tangentsOffset_def normalsOffset_def)
  with C6_uv1_aliases_uv0 [OF h, of "''m.fbx''"] h show ?thesis by auto
qed

theorem C7_empty_mesh_rejected_witness:
  "vertices (exampleMesh\<lparr>vertices := []\<rparr>) = []
   \<and> fst (buildModelMesh (exampleMesh\<lparr>vertices := []\<rparr>) ''m.fbx'')
       = exampleMesh\<lparr>vertices := []\<rparr>
   \<and> snd (buildModelMesh (exampleMesh\<lparr>vertices := []\<rparr>) ''m.fbx'')
       = [noVerticesMessage ''m.fbx'']
   \<and> sourceIndexCount (parts (exampleMesh\<lparr>parts := []\<rparr>)) = 0
   \<and> buildModelMesh (exampleMesh\<lparr>parts := []\<rparr>) ''m.fbx''
       = (exampleMesh\<lparr>parts := []\<rparr>, [noIndicesMessage ''m.fbx''])"
proof -
  have z: "sourceIndexCount (parts (exampleMesh\<lparr>parts := []\<rparr>)) = 0"
    by (simp add: sourceIndexCount_def)
  then have hz: "sourceIndexCount (parts (exampleMesh\<lparr>parts := []\<rparr>)) = 0
             \<or> vertices (exampleMesh\<lparr>parts := []\<rparr>) = []"
    by simp
  from C7_empty_mesh_rejected [OF hz, of "''m.fbx''"] z
  have none: "buildModelMesh (exampleMesh\<lparr>parts := []\<rparr>) ''m.fbx''
       = (exampleMesh\<lparr>parts := []\<rparr>, [noIndicesMessage ''m.fbx''])"
    by (metis prod.collapse)
  have n: "sourceIndexCount (parts (exampleMesh\<lparr>vertices := []\<rparr>)) = 3"
    by (simp add: exampleMesh_def sourceIndexCount_def)
  have h: "sourceIndexCount (parts (exampleMesh\<lparr>vertices := []\<rparr>)) = 0
             \<or> vertices (exampleMesh\<lparr>vertices := []\<rparr>) = []"
    by simp
  from C7_empty_mesh_rejected [OF h, of "''m.fbx''"] n z none show ?thesis by simp
qed




text \<open>A skinned mesh with exactly 255 clusters and four cluster indices.\<close>

definition mesh255 :: FBXMesh where
  "mesh255 = exampleMesh\<lparr>clusterIndices := [0, 1, 2, 3], clusterWeights := [255, 0, 0, 0],
                          clusters := replicate 255 \<lparr>jointIndex = 0\<rparr>\<rparr>"

text \<open>
  Claim C4 (width of the skin-cluster indices), at the input where the code departs
  from it. On a mesh with exactly 255 clusters the byte size of the region is
  computed with the test \<^verbatim>\<open>clusters.size() > UINT8_MAX\<close> and comes out at one byte
  per index, while the element format is chosen with the test
  \<^verbatim>\<open>clusters.size() < UINT8_MAX\<close> and comes out 16-bit.
\<close>

theorem C4_width_mismatch_at_255:
  "length (clusters mesh255) = 255
   \<and> clusterIndicesSize mesh255 = int (length (clusterIndices mesh255)) * 1
   \<and> attributeBuffers (the (gpu_mesh (fst (buildModelMesh mesh255 ''m.fbx'')))) SKIN_CLUSTER_INDEX
       = Some \<lparr>v_offset = 20, v_size = 4, v_element = (VEC4, UINT16, XYZW)\<rparr>"
proof -
  have h: "totalIndexCount (parts mesh255) \<noteq> 0" "vertices mesh255 \<noteq> []"
    by (simp_all add: mesh255_def exampleMesh_total) (simp add: exampleMesh_def)
  show ?thesis
    unfolding buildModelMesh_built [OF h]
    by (simp add: attach_SKIN_CLUSTER_INDEX)
       (simp add: mesh255_def exampleMesh_def normalsSize_def tangentsSize_def colorsSize_def
          texCoordsSize_def texCoords1Size_def clusterIndicesSize_def UINT8_MAX_def)
qed

section \<open>Properties of appendIndex\<close>

text \<open>
  \<^verbatim>\<open>appendIndex\<close> writes \<open>extracted\<close> and \<open>indices\<close> only; what it resolves for a
  corner depends on the other members only.
\<close>

definition sameSource :: "MeshData \<Rightarrow> MeshData \<Rightarrow> bool" where
  "sameSource src d \<longleftrightarrow>
     d_vertices d = d_vertices src \<and> polygonIndices d = polygonIndices src
     \<and> normalsByVertex d = normalsByVertex src \<and> d_normals d = d_normals src
     \<and> normalIndices d = normalIndices src \<and> colorsByVertex d = colorsByVertex src
     \<and> averageColor d = averageColor src \<and> d_colors d = d_colors src
     \<and> colorIndices d = colorIndices src \<and> d_texCoords d = d_texCoords src
     \<and> texCoordIndices d = texCoordIndices src \<and> attributes d = attributes src"

lemma sameSource_refl: "sameSource d d"
  by (simp add: sameSource_def)

lemma sameSource_trans: "sameSource a b \<Longrightarrow> sameSource b c \<Longrightarrow> sameSource a c"
  by (simp add: sameSource_def)

lemma sameSource_updates:
  "sameSource src (d\<lparr>extracted := e\<rparr>) = sameSource src d"
  "sameSource src (d\<lparr>indices := ix\<rparr>) = sameSource src d"
  by (simp_all add: sameSource_def)

lemma sameSource_corner:
  assumes "sameSource src d"
  shows "cornerVertexIndex d i = cornerVertexIndex src i"
    and "cornerPosition d i = cornerPosition src i"
    and "cornerNormal d i = cornerNormal src i"
    and "hasColors d = hasColors src"
    and "cornerColor d i = cornerColor src i"
    and "cornerTexCoord d i = cornerTexCoord src i"
    and "hasMoreTexcoords d = hasMoreTexcoords src"
    and "cornerTexCoord1 d i = cornerTexCoord1 src i"
    and "cornerVertex d i = cornerVertex src i"
    and "polygonIndices d = polygonIndices src"
  using assms
  by (simp_all add: sameSource_def cornerVertexIndex_def cornerPosition_def cornerNormal_def
      hasColors_def cornerColor_def cornerTexCoord_def hasMoreTexcoords_def
      cornerTexCoord1_def cornerVertex_def Let_def)

lemma appendIndex_skip:
  "index \<ge> length (polygonIndices d) \<Longrightarrow> appendIndex d idxs index = (d, idxs)"
  by (simp add: appendIndex_def)

lemma appendIndex_new:
  assumes "index < length (polygonIndices d)" and "indices d (cornerVertex d index) = None"
  shows "appendIndex d idxs index =
    (d\<lparr>indices := (indices d)(cornerVertex d index \<mapsto> length (vertices (mesh (extracted d)))),
       extracted := (extracted d)
         \<lparr>newIndices := newIndices (extracted d)
            @ [(cornerVertexIndex d index, length (vertices (mesh (extracted d))))],
          mesh := (mesh (extracted d))
            \<lparr>vertices := vertices (mesh (extracted d)) @ [cornerPosition d index],
             normals := normals (mesh (extracted d)) @ [cornerNormal d index],
             texCoords := texCoords (mesh (extracted d)) @ [cornerTexCoord d index],
             colors := (if hasColors d
                        then colors (mesh (extracted d)) @ [vec3_of_vec4 (cornerColor d index)]
                        else colors (mesh (extracted d))),
             texCoords1 := (if hasMoreTexcoords d
                            then texCoords1 (mesh (extracted d)) @ [cornerTexCoord1 d index]
                            else texCoords1 (mesh (extracted d)))\<rparr>\<rparr>\<rparr>,
     idxs @ [length (vertices (mesh (extracted d)))])"
  using assms by (simp add: appendIndex_def Let_def cornerVertex_def)

lemma appendIndex_old:
  assumes "index < length (polygonIndices d)" and "indices d (cornerVertex d index) = Some it"
  shows "appendIndex d idxs index =
    (d\<lparr>extracted := (extracted d)
         \<lparr>mesh := (mesh (extracted d))
            \<lparr>normals := (normals (mesh (extracted d)))
               [it := add3 (normals (mesh (extracted d)) ! it) (cornerNormal d index)]\<rparr>\<rparr>\<rparr>,
     idxs @ [it])"
  using assms by (simp add: appendIndex_def Let_def)

lemma appendIndex_sameSource:
  "appendIndex d idxs index = (d', idxs') \<Longrightarrow> sameSource d d'"
  by (auto simp: appendIndex_def Let_def sameSource_def split: if_splits option.splits)







text \<open>
  A sequence of corners going through \<^verbatim>\<open>appendIndex\<close> one after the other, all
  into one index list.
\<close>

definition appendAll :: "MeshData \<Rightarrow> nat list \<Rightarrow> MeshData \<times> nat list" where
  "appendAll data cs = foldl (\<lambda>s c. appendIndex (fst s) (snd s) c) (data, []) cs"

lemma appendAll_snoc:
  "appendAll d (cs @ [c]) = appendIndex (fst (appendAll d cs)) (snd (appendAll d cs)) c"
  by (simp add: appendAll_def)

lemma sameSource_initialData: "sameSource src (initialData src meshIdx)"
  by (simp add: sameSource_def initialData_def)




text \<open>Source data with every array empty.\<close>

definition noData :: MeshData where
  "noData =
     \<lparr>extracted = \<lparr>mesh = emptyMesh, newIndices = [], partMaterialTextures = [],
                   texcoordSetMap = Map.empty\<rparr>,
      d_vertices = [], polygonIndices = [], normalsByVertex = False, d_normals = [],
      normalIndices = [], colorsByVertex = False, averageColor = (1, 1, 1, 1),
      d_colors = [], colorIndices = [], d_texCoords = [], texCoordIndices = [],
      indices = Map.empty, attributes = []\<rparr>"




section \<open>Properties of the polygon loop\<close>

lemma appendIndex_idxs:
  "appendIndex d idxs c = (fst (appendIndex d [] c), idxs @ snd (appendIndex d [] c))"
  by (simp add: appendIndex_def Let_def split: option.splits)

lemma appendIndex_parts:
  "appendIndex d idxs c = (d', idxs') \<Longrightarrow>
     parts (mesh (extracted d')) = parts (mesh (extracted d))
     \<and> partMaterialTextures (extracted d') = partMaterialTextures (extracted d)"
  by (auto simp: appendIndex_def Let_def split: if_splits option.splits)

text \<open>The corners \<open>cs\<close> going through \<^verbatim>\<open>appendIndex\<close> into a list that is not empty.\<close>

lemma foldl_appendIndex_from:
  "foldl (\<lambda>s c. appendIndex (fst s) (snd s) c) (d, idxs) cs
     = (fst (appendAll d cs), idxs @ snd (appendAll d cs))"
proof (induction cs rule: rev_induct)
  case Nil
  show ?case by (simp add: appendAll_def)
next
  case (snoc c cs)
  show ?case
    by (simp add: snoc appendAll_snoc)
       (metis appendIndex_idxs append.assoc fst_conv snd_conv)
qed

lemma appendAll_Cons:
  "appendAll d (c # cs) =
     (fst (appendAll (fst (appendIndex d [] c)) cs),
      snd (appendIndex d [] c) @ snd (appendAll (fst (appendIndex d [] c)) cs))"
proof -
  have "appendAll d (c # cs)
          = foldl (\<lambda>s c. appendIndex (fst s) (snd s) c)
              (fst (appendIndex d [] c), snd (appendIndex d [] c)) cs"
    by (simp add: appendAll_def)
  then show ?thesis by (simp only: foldl_appendIndex_from)
qed

lemma appendAll_append:
  "appendAll d (cs @ cs') =
     (fst (appendAll (fst (appendAll d cs)) cs'),
      snd (appendAll d cs) @ snd (appendAll (fst (appendAll d cs)) cs'))"
proof -
  have "appendAll d (cs @ cs')
          = foldl (\<lambda>s c. appendIndex (fst s) (snd s) c)
              (fst (appendAll d cs), snd (appendAll d cs)) cs'"
    by (simp add: appendAll_def)
  then show ?thesis by (simp only: foldl_appendIndex_from)
qed

lemma appendAll_preserves:
  assumes step: "\<And>d t i d' t'. P d \<Longrightarrow> appendIndex d t i = (d', t') \<Longrightarrow> P d'"
    and "P d"
  shows "P (fst (appendAll d cs))"
proof (induction cs rule: rev_induct)
  case Nil
  from assms(2) show ?case by (simp add: appendAll_def)
next
  case (snoc c cs)
  show ?case
    unfolding appendAll_snoc
    by (rule step [OF snoc]) (rule prod.collapse [symmetric])
qed

lemma appendAll_length:
  assumes "\<forall>c \<in> set cs. c < length (polygonIndices d)"
  shows "length (snd (appendAll d cs)) = length cs"
  using assms
proof (induction cs rule: rev_induct)
  case Nil
  show ?case by (simp add: appendAll_def)
next
  case (snoc c cs)
  let ?d = "fst (appendAll d cs)"
  have "polygonIndices ?d = polygonIndices d"
    by (rule appendAll_preserves [where P = "\<lambda>x. polygonIndices x = polygonIndices d"])
       (simp_all add: appendIndex_polygonIndices)
  with snoc.prems have "c < length (polygonIndices ?d)" by simp
  then have "length (snd (appendIndex ?d (snd (appendAll d cs)) c))
               = Suc (length (snd (appendAll d cs)))"
    by (simp add: appendIndex_def Let_def split: option.splits)
  with snoc show ?case by (simp add: appendAll_snoc)
qed

text \<open>
  Every part index in the hash \<^verbatim>\<open>materialTextureParts\<close> is the position, counted
  from one, of a part that exists.
\<close>

definition partsInv :: "((int \<times> int) \<rightharpoonup> nat) \<Rightarrow> ExtractedMesh \<Rightarrow> bool" where
  "partsInv mtp ex \<longleftrightarrow> (\<forall>key p. mtp key = Some p \<longrightarrow> 1 \<le> p \<and> p \<le> length (parts (mesh ex)))"

lemma partFor_props:
  assumes "partsInv mtp ex" and "partFor key mtp ex = (k, mtp1, ex1)"
  shows "1 \<le> k" and "k \<le> length (parts (mesh ex1))" and "partsInv mtp1 ex1"
    and "mesh ex1 = (mesh ex)\<lparr>parts := parts (mesh ex1)\<rparr>"
    and "parts (mesh ex1) = parts (mesh ex) \<or> parts (mesh ex1) = parts (mesh ex) @ [emptyPart]"
proof -
  obtain a b where key: "key = (a, b)" by (cases key)
  show "1 \<le> k" "k \<le> length (parts (mesh ex1))"
    using assms unfolding key
    by (auto simp: partFor_def partsInv_def Let_def split: option.splits if_splits)
  show "partsInv mtp1 ex1"
    using assms unfolding key
    by (auto simp: partFor_def partsInv_def Let_def le_Suc_eq split: option.splits if_splits)
  show "mesh ex1 = (mesh ex)\<lparr>parts := parts (mesh ex1)\<rparr>"
    "parts (mesh ex1) = parts (mesh ex) \<or> parts (mesh ex1) = parts (mesh ex) @ [emptyPart]"
    using assms(2)
    by (auto simp: partFor_def Let_def split: option.splits if_splits)
qed


lemma fanLoop_preserves:
  assumes step: "\<And>d t i d' t'. P d \<Longrightarrow> appendIndex d t i = (d', t') \<Longrightarrow> P d'"
    and "P data" and "fanLoop data tri beginIndex nextIndex = (data', tri')"
  shows "P data'"
  using assms(2,3)
proof (induction data tri beginIndex nextIndex rule: fanLoop.induct)
  case (1 data tri beginIndex nextIndex)
  obtain d1 t1 where a1: "appendIndex data tri beginIndex = (d1, t1)" by fastforce
  obtain d2 t2 where a2: "appendIndex d1 t1 nextIndex = (d2, t2)" by fastforce
  obtain d3 t3 where a3: "appendIndex d2 t2 (nextIndex + 1) = (d3, t3)" by fastforce
  have p3: "P d3"
    using step [OF step [OF step [OF "1.prems"(1) a1] a2] a3] .
  show ?case
  proof (cases "nextIndex + 1 \<ge> length (polygonIndices d3)
                  \<or> polygonIndices d3 ! (nextIndex + 1) < 0")
    case True
    with "1.prems"(2) a1 a2 a3 have "data' = d3"
      by (subst (asm) fanLoop.simps) (simp add: Let_def)
    with p3 show ?thesis by simp
  next
    case False
    with "1.prems"(2) a1 a2 a3 have "fanLoop d3 t3 beginIndex (nextIndex + 1) = (data', tri')"
      by (subst (asm) fanLoop.simps) (simp add: Let_def)
    with "1.IH" [OF a1 [symmetric] refl a2 [symmetric] refl refl a3 [symmetric] refl False] p3
    show ?thesis by simp
  qed
qed

lemma setPart_parts:
  "parts (mesh (setPart ex k part)) = (parts (mesh ex))[k := part]"
  "mesh (setPart ex k part) = (mesh ex)\<lparr>parts := (parts (mesh ex))[k := part]\<rparr>"
  by (simp_all add: setPart_def)

lemma partsInv_length:
  "partsInv mtp ex \<Longrightarrow> length (parts (mesh ex')) = length (parts (mesh ex)) \<Longrightarrow> partsInv mtp ex'"
  by (simp add: partsInv_def)

text \<open>
  The state of the loop over the polygons when it has gone round \<open>n\<close> times (or has
  stopped before): the \<open>n\<close>-th polygon is the one that starts at its \<open>beginIndex\<close>.
\<close>

definition initialState :: "MeshData \<Rightarrow> 32 word \<Rightarrow> loopState" where
  "initialState src meshIdx = (initialData src meshIdx, Map.empty, 0, 0)"

fun loopStateAt :: "int list \<Rightarrow> int list \<Rightarrow> loopState \<Rightarrow> nat \<Rightarrow> loopState" where
  "loopStateAt materials textures s0 0 = s0"
| "loopStateAt materials textures s0 (Suc n) =
     (let s = loopStateAt materials textures s0 n
      in case s of (data, materialTextureParts, polygonIndex, beginIndex) \<Rightarrow>
           if beginIndex < length (polygonIndices data)
           then polygonStep materials textures s else s)"

definition loopInv :: "MeshData \<Rightarrow> loopState \<Rightarrow> bool" where
  "loopInv src s \<longleftrightarrow>
     (case s of (data, mtp, polygonIndex, beginIndex) \<Rightarrow>
        sameSource src data \<and> partsInv mtp (extracted data))"

lemma loopInv_initial: "loopInv src (initialState src meshIdx)"
  by (simp add: loopInv_def initialState_def sameSource_initialData partsInv_def)

lemma appendIndex_partsLength:
  "length (parts (mesh (extracted d))) = n \<Longrightarrow> appendIndex d t i = (d', t')
     \<Longrightarrow> length (parts (mesh (extracted d'))) = n"
  using appendIndex_parts by metis

lemma appendIndex_sameSource':
  "sameSource src d \<Longrightarrow> appendIndex d t i = (d', t') \<Longrightarrow> sameSource src d'"
  using appendIndex_sameSource sameSource_trans by blast

lemma polygonStep_loopInv:
  assumes "loopInv src s"
  shows "loopInv src (polygonStep materials textures s)"
proof -
  obtain data mtp polygonIndex beginIndex where s: "s = (data, mtp, polygonIndex, beginIndex)"
    by (metis prod_cases4)
  from assms have ss: "sameSource src data" and pinv: "partsInv mtp (extracted data)"
    by (simp_all add: loopInv_def s)
  obtain partIndex mtp1 ex where pf:
    "partFor (polygonMaterialTexture materials textures polygonIndex) mtp (extracted data)
       = (partIndex, mtp1, ex)"
    by (metis prod_cases3)
  note pp = partFor_props [OF pinv pf]
  let ?data0 = "data\<lparr>extracted := ex\<rparr>"
  let ?part = "parts (mesh ex) ! (partIndex - 1)"
  have ss0: "sameSource src ?data0" using ss by (simp add: sameSource_updates)
  have len0: "length (parts (mesh (extracted ?data0))) = length (parts (mesh ex))" by simp
  show ?thesis
  proof (cases "scanEnd (polygonIndices data) beginIndex - beginIndex = 4")
    case True
    obtain d1 q1 where a1: "appendIndex ?data0 (quadIndices ?part) beginIndex = (d1, q1)"
      by fastforce
    obtain d2 q2 where a2: "appendIndex d1 q1 (beginIndex + 1) = (d2, q2)" by fastforce
    obtain d3 q3 where a3: "appendIndex d2 q2 (beginIndex + 2) = (d3, q3)" by fastforce
    obtain d4 q4 where a4: "appendIndex d3 q3 (beginIndex + 3) = (d4, q4)" by fastforce
    have "sameSource src d4"
      using ss0 a1 a2 a3 a4 by (metis appendIndex_sameSource')
    moreover have "length (parts (mesh (extracted d4))) = length (parts (mesh ex))"
      using len0 a1 a2 a3 a4 by (metis appendIndex_partsLength)
    ultimately show ?thesis
      unfolding s polygonStep_quad [OF pf True a1 a2 a3 a4]
      using pp(3)
      by (simp add: loopInv_def sameSource_updates partsInv_def setPart_parts)
  next
    case False
    obtain d' t' where f: "fanLoop ?data0 (triangleIndices ?part) beginIndex (beginIndex + 1)
                             = (d', t')" by fastforce
    have "sameSource src d'"
      by (rule fanLoop_preserves [where P = "sameSource src", OF _ ss0 f])
         (rule appendIndex_sameSource')
    moreover have "length (parts (mesh (extracted d'))) = length (parts (mesh ex))"
      by (rule fanLoop_preserves
            [where P = "\<lambda>d. length (parts (mesh (extracted d))) = length (parts (mesh ex))",
             OF _ len0 f])
         (rule appendIndex_partsLength)
    ultimately show ?thesis
      unfolding s polygonStep_fan [OF pf False f]
      using pp(3)
      by (simp add: loopInv_def sameSource_updates partsInv_def setPart_parts)
  qed
qed

lemma loopStateAt_loopInv:
  "loopInv src (loopStateAt materials textures (initialState src meshIdx) n)"
proof (induction n)
  case 0
  show ?case by (simp add: loopInv_initial)
next
  case (Suc n)
  let ?s = "loopStateAt materials textures (initialState src meshIdx) n"
  obtain data mtp polygonIndex beginIndex where s: "?s = (data, mtp, polygonIndex, beginIndex)"
    by (metis prod_cases4)
  show ?case
  proof (cases "beginIndex < length (polygonIndices data)")
    case True
    with s have "loopStateAt materials textures (initialState src meshIdx) (Suc n)
                   = polygonStep materials textures ?s" by simp
    with polygonStep_loopInv [OF Suc] show ?thesis by simp
  next
    case False
    with s have "loopStateAt materials textures (initialState src meshIdx) (Suc n) = ?s"
      by simp
    with Suc show ?thesis by simp
  qed
qed

text \<open>The source data of the quad scenario of the specification.\<close>

definition quadData :: MeshData where
  "quadData = noData\<lparr>d_vertices := [(0, 0, 0), (1, 0, 0), (1, 1, 0), (0, 1, 0)],
                     polygonIndices := [0, 1, 2, - 4]\<rparr>"

lemma appendAll_preserved_fields:
  "polygonIndices (fst (appendAll d cs)) = polygonIndices d"
  "parts (mesh (extracted (fst (appendAll d cs)))) = parts (mesh (extracted d))"
proof -
  show "polygonIndices (fst (appendAll d cs)) = polygonIndices d"
    by (rule appendAll_preserves [where P = "\<lambda>x. polygonIndices x = polygonIndices d"])
       (simp_all add: appendIndex_polygonIndices)
  show "parts (mesh (extracted (fst (appendAll d cs)))) = parts (mesh (extracted d))"
    by (rule appendAll_preserves
          [where P = "\<lambda>x. parts (mesh (extracted x)) = parts (mesh (extracted d))"])
       (use appendIndex_parts in auto)
qed

text \<open>
  Claim C2 (quad split). Take the polygon at which the loop stands after \<open>n\<close>
  rounds, with a span of exactly four corners, and let \<open>out\<close> be the indices that
  \<^verbatim>\<open>appendIndex\<close> gives the four corners in source order. Then \<open>out\<close> has four
  entries A, B, C, D; the part of the polygon exists; the loop body appends
  A, B, C, D to the quad indices of that part and A, B, D, B, C, D to its
  quad-triangle indices; no triangle index list changes, no other part changes, and
  the vertex data is the one the four calls left. In the scenario of the
  specification the extraction gives the four input vertices, one part, the
  quad-triangle indices 0, 1, 3, 1, 2, 3 and no triangle index.
\<close>

theorem C2_quad_split:
  assumes "loopStateAt materials textures (initialState src meshIdx) n
             = (data, mtp, polygonIndex, beginIndex)"
    and "scanEnd (polygonIndices data) beginIndex - beginIndex = 4"
    and "partFor (polygonMaterialTexture materials textures polygonIndex) mtp (extracted data)
           = (partIndex, mtp1, ex)"
    and "appendAll (data\<lparr>extracted := ex\<rparr>)
           [beginIndex, beginIndex + 1, beginIndex + 2, beginIndex + 3] = (d4, out)"
    and "polygonStep materials textures (data, mtp, polygonIndex, beginIndex)
           = (data', mtp', polygonIndex', beginIndex')"
  shows "length out = 4
    \<and> 1 \<le> partIndex \<and> partIndex \<le> length (parts (mesh ex))
    \<and> length (parts (mesh (extracted data'))) = length (parts (mesh ex))
    \<and> quadIndices (parts (mesh (extracted data')) ! (partIndex - 1))
        = quadIndices (parts (mesh ex) ! (partIndex - 1)) @ out
    \<and> quadTrianglesIndices (parts (mesh (extracted data')) ! (partIndex - 1))
        = quadTrianglesIndices (parts (mesh ex) ! (partIndex - 1))
          @ [out ! 0, out ! 1, out ! 3, out ! 1, out ! 2, out ! 3]
    \<and> (\<forall>j < length (parts (mesh ex)).
          triangleIndices (parts (mesh (extracted data')) ! j)
            = triangleIndices (parts (mesh ex) ! j))
    \<and> (\<forall>j < length (parts (mesh ex)).
          j \<noteq> partIndex - 1 \<longrightarrow> parts (mesh (extracted data')) ! j = parts (mesh ex) ! j)
    \<and> mesh (extracted data') = (mesh (extracted d4))\<lparr>parts := parts (mesh (extracted data'))\<rparr>
    \<and> beginIndex' = beginIndex + 4
    \<and> vertices (mesh (fst (extractMesh quadData [] [] [] 0)))
        = [(0, 0, 0), (1, 0, 0), (1, 1, 0), (0, 1, 0)]
    \<and> length (parts (mesh (fst (extractMesh quadData [] [] [] 0)))) = 1
    \<and> quadTrianglesIndices (parts (mesh (fst (extractMesh quadData [] [] [] 0))) ! 0)
        = [0, 1, 3, 1, 2, 3]
    \<and> triangleIndices (parts (mesh (fst (extractMesh quadData [] [] [] 0))) ! 0) = []"
proof -
  let ?data0 = "data\<lparr>extracted := ex\<rparr>"
  let ?P = "parts (mesh ex)"
  let ?part = "?P ! (partIndex - 1)"
  let ?Q = "quadIndices ?part"
  let ?cs = "[beginIndex, beginIndex + 1, beginIndex + 2, beginIndex + 3]"
  from loopStateAt_loopInv [of src materials textures meshIdx n] assms(1)
  have pinv: "partsInv mtp (extracted data)" by (simp add: loopInv_def)
  note pp = partFor_props [OF pinv assms(3)]
  have le: "scanEnd (polygonIndices data) beginIndex \<le> length (polygonIndices data)"
  proof (cases "beginIndex \<le> length (polygonIndices data)")
    case True
    then show ?thesis by (rule scanEnd_le)
  next
    case False
    then have "scanEnd (polygonIndices data) beginIndex = beginIndex"
      by (subst scanEnd.simps) simp
    with assms(2) show ?thesis by simp
  qed
  with assms(2) have "beginIndex + 3 < length (polygonIndices data)" by arith
  then have inr: "\<forall>c \<in> set ?cs. c < length (polygonIndices ?data0)" by simp
  from appendAll_length [OF inr] assms(4) have lo: "length out = 4" by simp
  define s1 where "s1 = appendIndex ?data0 ?Q beginIndex"
  define s2 where "s2 = appendIndex (fst s1) (snd s1) (beginIndex + 1)"
  define s3 where "s3 = appendIndex (fst s2) (snd s2) (beginIndex + 2)"
  define s4 where "s4 = appendIndex (fst s3) (snd s3) (beginIndex + 3)"
  have "foldl (\<lambda>s c. appendIndex (fst s) (snd s) c) (?data0, ?Q) ?cs = s4"
    by (simp add: s1_def s2_def s3_def s4_def)
  then have s4: "s4 = (d4, ?Q @ out)"
    by (simp only: foldl_appendIndex_from assms(4) fst_conv snd_conv)
  have a1: "appendIndex ?data0 ?Q beginIndex = (fst s1, snd s1)" by (simp add: s1_def)
  have a2: "appendIndex (fst s1) (snd s1) (beginIndex + 1) = (fst s2, snd s2)"
    by (simp add: s2_def)
  have a3: "appendIndex (fst s2) (snd s2) (beginIndex + 2) = (fst s3, snd s3)"
    by (simp add: s3_def)
  have a4: "appendIndex (fst s3) (snd s3) (beginIndex + 3) = (d4, ?Q @ out)"
    using s4 by (simp add: s4_def)
  have nth: "(?Q @ out) ! (length (?Q @ out) - 4 + i) = out ! i" for i
    by (simp add: lo nth_append)
  have nth0: "(?Q @ out) ! (length (?Q @ out) - 4) = out ! 0"
    using nth [of 0] by simp
  have pd4: "parts (mesh (extracted d4)) = ?P"
    using appendAll_preserved_fields(2) [of ?data0 ?cs] assms(4) by simp
  from pp(1,2) have k: "partIndex - 1 < length ?P" by simp
  from assms(5) have d': "data' = d4\<lparr>extracted := setPart (extracted d4) (partIndex - 1)
                  (?part\<lparr>quadIndices := ?Q @ out,
                      quadTrianglesIndices :=
                        quadTrianglesIndices ?part
                        @ [out ! 0, out ! 1, out ! 3, out ! 1, out ! 2, out ! 3]\<rparr>)\<rparr>"
    and b': "beginIndex' = beginIndex + 4"
    unfolding polygonStep_quad [OF assms(3) assms(2) a1 a2 a3 a4] nth nth0 by simp_all
  have P': "parts (mesh (extracted data'))
              = ?P[partIndex - 1 := ?part\<lparr>quadIndices := ?Q @ out,
                      quadTrianglesIndices :=
                        quadTrianglesIndices ?part
                        @ [out ! 0, out ! 1, out ! 3, out ! 1, out ! 2, out ! 3]\<rparr>]"
    by (simp add: d' setPart_parts pd4)
  have m': "mesh (extracted data')
              = (mesh (extracted d4))\<lparr>parts := parts (mesh (extracted data'))\<rparr>"
    by (simp add: d' setPart_parts)
  have tri: "\<forall>j < length ?P. triangleIndices (parts (mesh (extracted data')) ! j)
            = triangleIndices (?P ! j)"
    using k by (auto simp: P' nth_list_update)
  have other: "\<forall>j < length ?P. j \<noteq> partIndex - 1 \<longrightarrow>
                 parts (mesh (extracted data')) ! j = ?P ! j"
    by (simp add: P')
  have scenario: "vertices (mesh (fst (extractMesh quadData [] [] [] 0)))
        = [(0, 0, 0), (1, 0, 0), (1, 1, 0), (0, 1, 0)]
    \<and> length (parts (mesh (fst (extractMesh quadData [] [] [] 0)))) = 1
    \<and> quadTrianglesIndices (parts (mesh (fst (extractMesh quadData [] [] [] 0))) ! 0)
        = [0, 1, 3, 1, 2, 3]
    \<and> triangleIndices (parts (mesh (fst (extractMesh quadData [] [] [] 0))) ! 0) = []"
    by code_simp
  from lo pp(1,2) k tri other m' b' scenario show ?thesis
    by (simp add: P')
qed


theorem C2_quad_split_witness:
  "scanEnd (polygonIndices (initialData quadData 0)) 0 - 0 = 4
   \<and> quadTrianglesIndices
        (parts (mesh (extracted (fst (polygonStep [] [] (initialState quadData 0))))) ! 0)
       = [0, 1, 3, 1, 2, 3]
   \<and> triangleIndices
        (parts (mesh (extracted (fst (polygonStep [] [] (initialState quadData 0))))) ! 0)
       = []"
proof -
  define X where
    "X = partFor (polygonMaterialTexture [] [] 0) Map.empty (extracted (initialData quadData 0))"
  define A where
    "A = appendAll ((initialData quadData 0)\<lparr>extracted := snd (snd X)\<rparr>)
           [0, 0 + 1, 0 + 2, 0 + 3]"
  define S where
    "S = polygonStep [] [] (initialData quadData 0, Map.empty, 0, 0)"
  have st: "loopStateAt [] [] (initialState quadData 0) 0
              = (initialData quadData 0, Map.empty, 0, 0)"
    by (simp add: initialState_def)
  have span: "scanEnd (polygonIndices (initialData quadData 0)) 0 - 0 = 4"
    by code_simp
  have pf: "partFor (polygonMaterialTexture [] [] 0) Map.empty
              (extracted (initialData quadData 0)) = (fst X, fst (snd X), snd (snd X))"
    by (simp add: X_def)
  have ap: "appendAll ((initialData quadData 0)\<lparr>extracted := snd (snd X)\<rparr>)
              [0, 0 + 1, 0 + 2, 0 + 3] = (fst A, snd A)"
    by (simp add: A_def)
  have ps: "polygonStep [] [] (initialData quadData 0, Map.empty, 0, 0)
              = (fst S, fst (snd S), fst (snd (snd S)), snd (snd (snd S)))"
    by (simp add: S_def)
  have x: "fst X = 1" "length (parts (mesh (snd (snd X)))) = 1"
    "quadTrianglesIndices (parts (mesh (snd (snd X))) ! 0) = []"
    "triangleIndices (parts (mesh (snd (snd X))) ! 0) = []"
    unfolding X_def by code_simp+
  have a: "snd A = [0, 1, 2, 3]"
    unfolding A_def X_def by code_simp
  from C2_quad_split [OF st span pf ap ps] span show ?thesis
    by (simp add: x a S_def initialState_def)
qed

lemma scanEnd_span:
  "j < scanEnd polys endIndex - 1 \<Longrightarrow> endIndex \<le> j \<Longrightarrow> polys ! j \<ge> 0"
proof (induction polys endIndex rule: scanEnd.induct)
  case (1 polys endIndex)
  show ?case
  proof (cases "endIndex < length polys \<and> polys ! endIndex \<ge> 0")
    case True
    then have e: "scanEnd polys endIndex = scanEnd polys (endIndex + 1)"
      by (subst scanEnd.simps) simp
    show ?thesis
    proof (cases "j = endIndex")
      case True
      with \<open>endIndex < length polys \<and> polys ! endIndex \<ge> 0\<close> show ?thesis by simp
    next
      case False
      with "1.prems" have "endIndex + 1 \<le> j" by simp
      with "1.IH" True "1.prems"(1) e show ?thesis by simp
    qed
  next
    case False
    then have "scanEnd polys endIndex \<le> endIndex + 1"
      by (subst scanEnd.simps) auto
    with "1.prems" show ?thesis by simp
  qed
qed

lemma map_upt_shift: "map (\<lambda>i. f (b + i)) [m ..< n] = map f [b + m ..< b + n]"
  by (induction n) simp_all

text \<open>
  The corners that the triangle fan sends through \<^verbatim>\<open>appendIndex\<close> when
  \<open>nextIndex\<close> runs from \<open>n\<close> up to the position \<open>t\<close> of the terminator.
\<close>

definition fanCorners :: "nat \<Rightarrow> nat \<Rightarrow> nat \<Rightarrow> nat list" where
  "fanCorners beginIndex n t = concat (map (\<lambda>i. [beginIndex, i, i + 1]) [n ..< t])"

lemma fanLoop_terminated:
  assumes "n < t" and "t < length (polygonIndices d)" and "polygonIndices d ! t < 0"
    and "\<forall>j. n < j \<and> j < t \<longrightarrow> polygonIndices d ! j \<ge> 0"
  shows "fanLoop d tri b n
           = (fst (appendAll d (fanCorners b n t)), tri @ snd (appendAll d (fanCorners b n t)))"
  using assms
proof (induction "t - n" arbitrary: d tri n)
  case 0
  then show ?case by simp
next
  case (Suc k)
  let ?f = "\<lambda>s c. appendIndex (fst s) (snd s) c"
  define s1 where "s1 = appendIndex d tri b"
  define s2 where "s2 = appendIndex (fst s1) (snd s1) n"
  define s3 where "s3 = appendIndex (fst s2) (snd s2) (n + 1)"
  have "foldl ?f (d, tri) [b, n, n + 1] = s3"
    by (simp add: s1_def s2_def s3_def)
  then have s3: "s3 = (fst (appendAll d [b, n, n + 1]), tri @ snd (appendAll d [b, n, n + 1]))"
    by (simp only: foldl_appendIndex_from)
  have p3: "polygonIndices (fst s3) = polygonIndices d"
    by (simp add: s3 appendAll_preserved_fields)
  have unfold: "fanLoop d tri b n =
      (if n + 1 \<ge> length (polygonIndices (fst s3)) \<or> polygonIndices (fst s3) ! (n + 1) < 0
       then s3 else fanLoop (fst s3) (snd s3) b (n + 1))"
    by (subst fanLoop.simps)
       (simp add: Let_def s1_def s2_def s3_def split: prod.splits)
  show ?case
  proof (cases "n + 1 = t")
    case True
    with Suc.prems have stop: "fanLoop d tri b n = s3"
      by (simp add: unfold p3)
    from True have "[n ..< t] = [n]" by auto
    then have "fanCorners b n t = [b, n, n + 1]"
      by (simp add: fanCorners_def)
    with stop s3 show ?thesis by simp
  next
    case False
    with Suc.prems have lt: "n + 1 < t" by simp
    with Suc.prems have "polygonIndices d ! (n + 1) \<ge> 0" "n + 1 < length (polygonIndices d)"
      by simp_all
    then have go: "fanLoop d tri b n = fanLoop (fst s3) (snd s3) b (n + 1)"
      by (simp add: unfold p3)
    from Suc.hyps(2) have k: "k = t - (n + 1)" by simp
    have ih: "fanLoop (fst s3) (snd s3) b (n + 1)
                = (fst (appendAll (fst s3) (fanCorners b (n + 1) t)),
                   snd s3 @ snd (appendAll (fst s3) (fanCorners b (n + 1) t)))"
      using Suc.prems lt by (intro Suc.hyps(1) [OF k]) (simp_all add: p3)
    from lt have fc: "fanCorners b n t = [b, n, n + 1] @ fanCorners b (n + 1) t"
      by (simp add: fanCorners_def upt_conv_Cons)
    show ?thesis
      unfolding go ih fc
      by (subst (1 2) appendAll_append) (simp add: s3)
  qed
qed


lemma length_concat_triples:
  "length (concat (map (\<lambda>i. [f i, g i, h i]) xs)) = 3 * length xs"
  by (induction xs) simp_all

text \<open>A pentagon, and a triangle whose last corner has lost its terminator.\<close>

definition pentagonData :: MeshData where
  "pentagonData = noData
     \<lparr>d_vertices := [(0, 0, 0), (2, 0, 0), (3, 1, 0), (1, 2, 0), (- 1, 1, 0)],
      polygonIndices := [0, 1, 2, 3, - 5]\<rparr>"

definition openTriangleData :: MeshData where
  "openTriangleData = noData
     \<lparr>d_vertices := [(0, 0, 0), (1, 0, 0), (1, 1, 0)], polygonIndices := [0, 1, 2]\<rparr>"

text \<open>
  Claim C3, as the code has it (triangle fan). Take the polygon at which the loop
  stands after \<open>n\<close> rounds, with a span of \<open>N\<close> corners, \<open>N\<close> at least 3 and not 4,
  whose last corner is a terminator entry, and let \<open>out\<close> be the indices that
  \<^verbatim>\<open>appendIndex\<close> gives the corners (first, first + i, first + i + 1) for
  i = 1, ..., N - 2 in that order. Then \<open>out\<close> has 3 (N - 2) entries and the loop body
  appends exactly \<open>out\<close> to the triangle indices of the polygon's part; no quad index
  list changes and no other part changes. The pentagon (A, B, C, D, E) gives
  (A, B, C), (A, C, D), (A, D, E).
\<close>

theorem C3_fan_terminated:
  assumes "loopStateAt materials textures (initialState src meshIdx) n
             = (data, mtp, polygonIndex, beginIndex)"
    and "scanEnd (polygonIndices data) beginIndex - beginIndex = N"
    and "N \<noteq> 4" and "3 \<le> N"
    and "polygonIndices data ! (beginIndex + N - 1) < 0"
    and "partFor (polygonMaterialTexture materials textures polygonIndex) mtp (extracted data)
           = (partIndex, mtp1, ex)"
    and "appendAll (data\<lparr>extracted := ex\<rparr>)
           (concat (map (\<lambda>i. [beginIndex, beginIndex + i, beginIndex + i + 1]) [1 ..< N - 1]))
           = (d', out)"
    and "polygonStep materials textures (data, mtp, polygonIndex, beginIndex)
           = (data', mtp', polygonIndex', beginIndex')"
  shows "length out = 3 * (N - 2)
    \<and> 1 \<le> partIndex \<and> partIndex \<le> length (parts (mesh ex))
    \<and> length (parts (mesh (extracted data'))) = length (parts (mesh ex))
    \<and> triangleIndices (parts (mesh (extracted data')) ! (partIndex - 1))
        = triangleIndices (parts (mesh ex) ! (partIndex - 1)) @ out
    \<and> (\<forall>j < length (parts (mesh ex)).
          quadTrianglesIndices (parts (mesh (extracted data')) ! j)
            = quadTrianglesIndices (parts (mesh ex) ! j)
          \<and> quadIndices (parts (mesh (extracted data')) ! j) = quadIndices (parts (mesh ex) ! j))
    \<and> (\<forall>j < length (parts (mesh ex)).
          j \<noteq> partIndex - 1 \<longrightarrow> parts (mesh (extracted data')) ! j = parts (mesh ex) ! j)
    \<and> mesh (extracted data') = (mesh (extracted d'))\<lparr>parts := parts (mesh (extracted data'))\<rparr>
    \<and> beginIndex' = beginIndex + N
    \<and> triangleIndices (parts (mesh (fst (extractMesh pentagonData [] [] [] 0))) ! 0)
        = [0, 1, 2, 0, 2, 3, 0, 3, 4]
    \<and> quadTrianglesIndices (parts (mesh (fst (extractMesh pentagonData [] [] [] 0))) ! 0) = []"
proof -
  let ?data0 = "data\<lparr>extracted := ex\<rparr>"
  let ?polys = "polygonIndices data"
  let ?P = "parts (mesh ex)"
  let ?part = "?P ! (partIndex - 1)"
  let ?T = "triangleIndices ?part"
  let ?cs = "concat (map (\<lambda>i. [beginIndex, beginIndex + i, beginIndex + i + 1]) [1 ..< N - 1])"
  let ?t = "beginIndex + N - 1"
  from loopStateAt_loopInv [of src materials textures meshIdx n] assms(1)
  have pinv: "partsInv mtp (extracted data)" by (simp add: loopInv_def)
  note pp = partFor_props [OF pinv assms(6)]
  have bl: "beginIndex \<le> length ?polys"
  proof (rule ccontr)
    assume "\<not> beginIndex \<le> length ?polys"
    then have "scanEnd ?polys beginIndex = beginIndex"
      by (subst scanEnd.simps) simp
    with assms(2,4) show False by simp
  qed
  from scanEnd_le [OF bl] assms(2,4) have e: "scanEnd ?polys beginIndex = beginIndex + N"
    and tl: "?t < length ?polys" by simp_all
  have nonneg: "\<forall>j. beginIndex + 1 < j \<and> j < ?t \<longrightarrow> polygonIndices ?data0 ! j \<ge> 0"
    using scanEnd_span [of _ ?polys beginIndex] by (simp add: e)
  have fc: "fanCorners beginIndex (beginIndex + 1) ?t = ?cs"
  proof -
    from assms(4) have "beginIndex + N - 1 = beginIndex + (N - 1)" by simp
    then show ?thesis
      unfolding fanCorners_def
      using map_upt_shift [of "\<lambda>i. [beginIndex, i, i + 1]" beginIndex 1 "N - 1"]
      by (simp add: add.assoc)
  qed
  have fl: "fanLoop ?data0 ?T beginIndex (beginIndex + 1) = (d', ?T @ out)"
  proof -
    have lt: "beginIndex + 1 < ?t" using assms(4) by simp
    have tl0: "?t < length (polygonIndices ?data0)" using tl by simp
    have neg0: "polygonIndices ?data0 ! ?t < 0" using assms(5) by simp
    show ?thesis
      by (simp only: fanLoop_terminated [OF lt tl0 neg0 nonneg] fc assms(7) fst_conv snd_conv)
  qed
  have inr: "\<forall>c \<in> set ?cs. c < length (polygonIndices ?data0)"
    using tl by auto
  from appendAll_length [OF inr] assms(7) have lo: "length out = 3 * (N - 2)"
    by (simp add: length_concat_triples)
  have pd: "parts (mesh (extracted d')) = ?P"
    using appendAll_preserved_fields(2) [of ?data0 ?cs] assms(7) by simp
  from pp(1,2) have k: "partIndex - 1 < length ?P" by simp
  from assms(2,3) have span: "scanEnd ?polys beginIndex - beginIndex \<noteq> 4" by simp
  from assms(8) have d': "data' = d'\<lparr>extracted := setPart (extracted d') (partIndex - 1)
                  (?part\<lparr>triangleIndices := ?T @ out\<rparr>)\<rparr>"
    and b': "beginIndex' = beginIndex + N"
    unfolding polygonStep_fan [OF assms(6) span fl] by (simp_all add: e)
  have P': "parts (mesh (extracted data'))
              = ?P[partIndex - 1 := ?part\<lparr>triangleIndices := ?T @ out\<rparr>]"
    by (simp add: d' setPart_parts pd)
  have m': "mesh (extracted data')
              = (mesh (extracted d'))\<lparr>parts := parts (mesh (extracted data'))\<rparr>"
    by (simp add: d' setPart_parts)
  have quads: "\<forall>j < length ?P.
          quadTrianglesIndices (parts (mesh (extracted data')) ! j)
            = quadTrianglesIndices (?P ! j)
          \<and> quadIndices (parts (mesh (extracted data')) ! j) = quadIndices (?P ! j)"
    using k by (auto simp: P' nth_list_update)
  have other: "\<forall>j < length ?P. j \<noteq> partIndex - 1 \<longrightarrow>
                 parts (mesh (extracted data')) ! j = ?P ! j"
    by (simp add: P')
  have scenario:
    "triangleIndices (parts (mesh (fst (extractMesh pentagonData [] [] [] 0))) ! 0)
        = [0, 1, 2, 0, 2, 3, 0, 3, 4]
    \<and> quadTrianglesIndices (parts (mesh (fst (extractMesh pentagonData [] [] [] 0))) ! 0) = []"
    by code_simp
  from lo pp(1,2) k quads other m' b' scenario show ?thesis
    by (simp add: P')
qed

theorem C3_fan_terminated_witness:
  "scanEnd (polygonIndices (initialData pentagonData 0)) 0 - 0 = 5
   \<and> polygonIndices (initialData pentagonData 0) ! (0 + 5 - 1) < 0
   \<and> triangleIndices
        (parts (mesh (extracted (fst (polygonStep [] [] (initialState pentagonData 0))))) ! 0)
       = [0, 1, 2, 0, 2, 3, 0, 3, 4]"
proof -
  define X where
    "X = partFor (polygonMaterialTexture [] [] 0) Map.empty
           (extracted (initialData pentagonData 0))"
  define A where
    "A = appendAll ((initialData pentagonData 0)\<lparr>extracted := snd (snd X)\<rparr>)
           (concat (map (\<lambda>i. [0, 0 + i, 0 + i + 1]) [1 ..< 5 - 1]))"
  define S where
    "S = polygonStep [] [] (initialData pentagonData 0, Map.empty, 0, 0)"
  have st: "loopStateAt [] [] (initialState pentagonData 0) 0
              = (initialData pentagonData 0, Map.empty, 0, 0)"
    by (simp add: initialState_def)
  have span: "scanEnd (polygonIndices (initialData pentagonData 0)) 0 - 0 = 5"
    by code_simp
  have n: "(5::nat) \<noteq> 4" "(3::nat) \<le> 5" by simp_all
  have tm: "polygonIndices (initialData pentagonData 0) ! (0 + 5 - 1) < 0"
    by code_simp
  have pf: "partFor (polygonMaterialTexture [] [] 0) Map.empty
              (extracted (initialData pentagonData 0)) = (fst X, fst (snd X), snd (snd X))"
    by (simp add: X_def)
  have ap: "appendAll ((initialData pentagonData 0)\<lparr>extracted := snd (snd X)\<rparr>)
              (concat (map (\<lambda>i. [0, 0 + i, 0 + i + 1]) [1 ..< 5 - 1])) = (fst A, snd A)"
    by (simp add: A_def)
  have ps: "polygonStep [] [] (initialData pentagonData 0, Map.empty, 0, 0)
              = (fst S, fst (snd S), fst (snd (snd S)), snd (snd (snd S)))"
    by (simp add: S_def)
  have x: "fst X = 1" "triangleIndices (parts (mesh (snd (snd X))) ! 0) = []"
    unfolding X_def by code_simp+
  have a: "snd A = [0, 1, 2, 0, 2, 3, 0, 3, 4]"
    unfolding A_def X_def by code_simp
  from C3_fan_terminated [OF st span n tm pf ap ps] span tm show ?thesis
    by (simp add: x a S_def initialState_def)
qed

text \<open>
  Without the terminator the claim fails: the stream 0, 1, 2 is one span of three
  corners, and the fan emits the triangle and then two indices of a second one.
\<close>

theorem C3_open_triangle:
  "scanEnd (polygonIndices openTriangleData) 0 - 0 = 3
   \<and> triangleIndices (parts (mesh (fst (extractMesh openTriangleData [] [] [] 0))) ! 0)
       = [0, 1, 2, 0, 2]"
  by code_simp

section \<open>Lengths of the per-vertex arrays\<close>

lemma extractLoop_preserves:
  fixes P :: "loopState \<Rightarrow> bool"
  assumes "\<And>data mtp polygonIndex beginIndex.
             P (data, mtp, polygonIndex, beginIndex)
             \<Longrightarrow> beginIndex < length (polygonIndices data)
             \<Longrightarrow> P (polygonStep materials textures (data, mtp, polygonIndex, beginIndex))"
    and "P s"
  shows "P (extractLoop materials textures s)"
  using assms
proof (induction materials textures s rule: extractLoop.induct)
  case (1 materials textures data mtp polygonIndex beginIndex)
  show ?case
  proof (cases "beginIndex < length (polygonIndices data)")
    case True
    have "P (polygonStep materials textures (data, mtp, polygonIndex, beginIndex))"
      by (rule "1.prems"(1) [OF "1.prems"(2) True])
    from "1.IH" [OF True "1.prems"(1) this] True show ?thesis
      by (subst extractLoop.simps) simp
  next
    case False
    with "1.prems"(2) show ?thesis by (subst extractLoop.simps) simp
  qed
qed

text \<open>
  In the polygon path every vertex comes with a normal and a primary UV, with a colour
  if the source has more than one colour, and with a secondary UV if the source has a
  second UV channel.
\<close>

definition lengthInv :: "MeshData \<Rightarrow> MeshData \<Rightarrow> bool" where
  "lengthInv src d \<longleftrightarrow>
     sameSource src d
     \<and> length (normals (mesh (extracted d))) = length (vertices (mesh (extracted d)))
     \<and> length (texCoords (mesh (extracted d))) = length (vertices (mesh (extracted d)))
     \<and> length (colors (mesh (extracted d)))
         = (if hasColors src then length (vertices (mesh (extracted d))) else 0)
     \<and> length (texCoords1 (mesh (extracted d)))
         = (if hasMoreTexcoords src then length (vertices (mesh (extracted d))) else 0)"

lemma lengthInv_initial: "lengthInv src (initialData src meshIdx)"
  by (simp add: lengthInv_def sameSource_initialData)
     (simp add: initialData_def emptyMesh_def)

lemma appendIndex_lengthInv:
  assumes "lengthInv src d" and "appendIndex d t i = (d', t')"
  shows "lengthInv src d'"
proof -
  from assms(1) have ss: "sameSource src d" by (simp add: lengthInv_def)
  note sc = sameSource_corner [OF ss]
  have ss': "sameSource src d'" by (rule appendIndex_sameSource' [OF ss assms(2)])
  show ?thesis
  proof (cases "i < length (polygonIndices d)")
    case False
    with assms show ?thesis by (simp add: appendIndex_skip)
  next
    case True
    show ?thesis
    proof (cases "indices d (cornerVertex d i)")
      case None
      from appendIndex_new [OF True None, of t] assms(2)
      have v: "vertices (mesh (extracted d')) = vertices (mesh (extracted d)) @ [cornerPosition d i]"
        and n: "normals (mesh (extracted d')) = normals (mesh (extracted d)) @ [cornerNormal d i]"
        and u: "texCoords (mesh (extracted d'))
                  = texCoords (mesh (extracted d)) @ [cornerTexCoord d i]"
        and c: "colors (mesh (extracted d'))
                  = (if hasColors src
                     then colors (mesh (extracted d)) @ [vec3_of_vec4 (cornerColor d i)]
                     else colors (mesh (extracted d)))"
        and w: "texCoords1 (mesh (extracted d'))
                  = (if hasMoreTexcoords src
                     then texCoords1 (mesh (extracted d)) @ [cornerTexCoord1 d i]
                     else texCoords1 (mesh (extracted d)))"
        by (auto simp: sc)
      from assms(1) show ?thesis
        by (simp add: lengthInv_def ss' v n u c w)
    next
      case (Some it)
      from appendIndex_old [OF True Some, of t] assms(2)
      have v: "vertices (mesh (extracted d')) = vertices (mesh (extracted d))"
        and n: "length (normals (mesh (extracted d'))) = length (normals (mesh (extracted d)))"
        and u: "texCoords (mesh (extracted d')) = texCoords (mesh (extracted d))"
        and c: "colors (mesh (extracted d')) = colors (mesh (extracted d))"
        and w: "texCoords1 (mesh (extracted d')) = texCoords1 (mesh (extracted d))"
        by auto
      from assms(1) show ?thesis
        by (simp add: lengthInv_def ss' v n u c w)
    qed
  qed
qed

lemma lengthInv_extracted:
  "lengthInv src d \<Longrightarrow> mesh ex' = (mesh (extracted d))\<lparr>parts := ps\<rparr>
     \<Longrightarrow> lengthInv src (d\<lparr>extracted := ex'\<rparr>)"
  by (simp add: lengthInv_def sameSource_updates)

lemma partFor_mesh:
  "partFor key mtp ex = (k, mtp1, ex1) \<Longrightarrow> mesh ex1 = (mesh ex)\<lparr>parts := parts (mesh ex1)\<rparr>"
  by (auto simp: partFor_def Let_def split: option.splits if_splits)

lemma polygonStep_lengthInv:
  assumes "lengthInv src data"
    and "polygonStep materials textures (data, mtp, polygonIndex, beginIndex)
           = (data', mtp', polygonIndex', beginIndex')"
  shows "lengthInv src data'"
proof -
  obtain partIndex mtp1 ex where pf:
    "partFor (polygonMaterialTexture materials textures polygonIndex) mtp (extracted data)
       = (partIndex, mtp1, ex)"
    by (metis prod_cases3)
  let ?data0 = "data\<lparr>extracted := ex\<rparr>"
  let ?part = "parts (mesh ex) ! (partIndex - 1)"
  have l0: "lengthInv src ?data0"
    by (rule lengthInv_extracted [OF assms(1) partFor_mesh [OF pf]])
  show ?thesis
  proof (cases "scanEnd (polygonIndices data) beginIndex - beginIndex = 4")
    case True
    obtain d1 q1 where a1: "appendIndex ?data0 (quadIndices ?part) beginIndex = (d1, q1)"
      by fastforce
    obtain d2 q2 where a2: "appendIndex d1 q1 (beginIndex + 1) = (d2, q2)" by fastforce
    obtain d3 q3 where a3: "appendIndex d2 q2 (beginIndex + 2) = (d3, q3)" by fastforce
    obtain d4 q4 where a4: "appendIndex d3 q3 (beginIndex + 3) = (d4, q4)" by fastforce
    have "lengthInv src d4"
      using l0 a1 a2 a3 a4 by (metis appendIndex_lengthInv)
    then show ?thesis
      using assms(2) unfolding polygonStep_quad [OF pf True a1 a2 a3 a4]
      by (auto intro: lengthInv_extracted simp: setPart_parts)
  next
    case False
    obtain d' t' where f: "fanLoop ?data0 (triangleIndices ?part) beginIndex (beginIndex + 1)
                             = (d', t')" by fastforce
    have "lengthInv src d'"
      by (rule fanLoop_preserves [where P = "lengthInv src", OF _ l0 f])
         (rule appendIndex_lengthInv)
    then show ?thesis
      using assms(2) unfolding polygonStep_fan [OF pf False f]
      by (auto intro: lengthInv_extracted simp: setPart_parts)
  qed
qed

lemma extractLoop_lengthInv:
  "lengthInv src (fst (extractLoop materials textures (initialData src meshIdx, Map.empty, 0, 0)))"
proof -
  have "(\<lambda>s. lengthInv src (fst s))
          (extractLoop materials textures (initialData src meshIdx, Map.empty, 0, 0))"
  proof (rule extractLoop_preserves)
    fix data :: MeshData and mtp :: "(int \<times> int) \<rightharpoonup> nat"
      and polygonIndex beginIndex :: nat
    assume "lengthInv src (fst (data, mtp, polygonIndex, beginIndex))"
    then have "lengthInv src data" by simp
    then show "lengthInv src
            (fst (polygonStep materials textures (data, mtp, polygonIndex, beginIndex)))"
      using polygonStep_lengthInv [of src data materials textures mtp polygonIndex beginIndex]
      by (metis prod.collapse)
  next
    show "lengthInv src (fst (initialData src meshIdx, Map.empty, 0, 0))"
      by (simp add: lengthInv_initial)
  qed
  then show ?thesis .
qed


subsection \<open>The compressed path\<close>

lemma length_pushAttribute:
  "length (pushAttribute a i xs) = length xs + (if a = None then 0 else 1)"
  by (simp add: pushAttribute_def split: option.splits)

lemma dracoVertexLoop_lengths:
  fixes dm :: DracoMesh
  defines "ex1 \<equiv> \<lambda>ex n. foldl (dracoVertexStep dm) ex [0 ..< n]"
  shows "length (vertices (mesh (ex1 ex n)))
           = length (vertices (mesh ex)) + (if positionAttribute dm = None then 0 else n)"
    and "length (normals (mesh (ex1 ex n)))
           = length (normals (mesh ex)) + (if normalAttribute dm = None then 0 else n)"
    and "length (texCoords (mesh (ex1 ex n)))
           = length (texCoords (mesh ex)) + (if texCoordAttribute dm = None then 0 else n)"
    and "length (texCoords1 (mesh (ex1 ex n)))
           = length (texCoords1 (mesh ex))
             + (if extraTexCoordAttribute dm = None then 0 else n)"
    and "length (colors (mesh (ex1 ex n)))
           = length (colors (mesh ex)) + (if colorAttribute dm = None then 0 else n)"
  unfolding ex1_def
  by (induction n; simp add: dracoVertexStep_def length_pushAttribute)+

text \<open>The five per-vertex arrays of two meshes are the same.\<close>

definition sameArrays :: "FBXMesh \<Rightarrow> FBXMesh \<Rightarrow> bool" where
  "sameArrays m m' \<longleftrightarrow>
     vertices m' = vertices m \<and> normals m' = normals m \<and> texCoords m' = texCoords m
     \<and> texCoords1 m' = texCoords1 m \<and> colors m' = colors m"

lemma dracoFaceStep_arrays:
  "sameArrays (mesh (fst s)) (mesh (fst (dracoFaceStep dm s face)))"
proof -
  obtain ex mtp where s: "s = (ex, mtp)" by (cases s)
  obtain a b c where f: "face = (a, b, c)" by (cases face)
  obtain k mtp1 ex1 where pf:
    "partFor (uint (case matTexAttribute dm of None \<Rightarrow> 0 | Some f \<Rightarrow> f a), 0) mtp ex
       = (k, mtp1, ex1)"
    by (metis prod_cases3)
  from pf have "sameArrays (mesh ex) (mesh ex1)"
    by (auto simp: partFor_def Let_def sameArrays_def split: option.splits if_splits)
  then show ?thesis
    by (simp add: s f dracoFaceStep_def Let_def pf setPart_parts sameArrays_def)
qed

lemma dracoFaceLoop_arrays:
  "sameArrays (mesh (fst s)) (mesh (fst (foldl (dracoFaceStep dm) s fs)))"
proof (induction fs rule: rev_induct)
  case Nil
  show ?case by (simp add: sameArrays_def)
next
  case (snoc f fs)
  from snoc dracoFaceStep_arrays [of "foldl (dracoFaceStep dm) s fs" dm f]
  show ?case by (simp add: sameArrays_def)
qed

lemma decodeDracoMesh_lengths:
  "length (vertices (mesh (decodeDracoMesh ex dm)))
     = length (vertices (mesh ex)) + (if positionAttribute dm = None then 0 else num_points dm)"
  "length (normals (mesh (decodeDracoMesh ex dm)))
     = length (normals (mesh ex)) + (if normalAttribute dm = None then 0 else num_points dm)"
  "length (texCoords (mesh (decodeDracoMesh ex dm)))
     = length (texCoords (mesh ex)) + (if texCoordAttribute dm = None then 0 else num_points dm)"
  "length (texCoords1 (mesh (decodeDracoMesh ex dm)))
     = length (texCoords1 (mesh ex))
       + (if extraTexCoordAttribute dm = None then 0 else num_points dm)"
  "length (colors (mesh (decodeDracoMesh ex dm)))
     = length (colors (mesh ex)) + (if colorAttribute dm = None then 0 else num_points dm)"
  using dracoFaceLoop_arrays
          [of "(foldl (dracoVertexStep dm) ex [0 ..< num_points dm], Map.empty)" dm "faces dm"]
  by (simp_all add: decodeDracoMesh_def Let_def sameArrays_def dracoVertexLoop_lengths)

text \<open>
  Compressed blocks: one point with a normal and no position; one point with a
  position and a normal; one point with a position only.
\<close>

definition dracoNormalOnly :: DracoMesh where
  "dracoNormalOnly =
     \<lparr>num_points = 1, positionAttribute = None,
      normalAttribute = Some (\<lambda>i. (0, 0, 1)), texCoordAttribute = None,
      extraTexCoordAttribute = None, colorAttribute = None, matTexAttribute = None,
      faces = []\<rparr>"

definition dracoPositionNormal :: DracoMesh where
  "dracoPositionNormal = dracoNormalOnly\<lparr>positionAttribute := Some (\<lambda>i. (0, 0, 0))\<rparr>"

definition dracoPositionOnly :: DracoMesh where
  "dracoPositionOnly = dracoPositionNormal\<lparr>normalAttribute := None\<rparr>"

text \<open>
  Claim C8, as the code has it (lengths of the per-vertex arrays). In the mesh that
  \<^verbatim>\<open>extractMesh\<close> returns from the polygon path, or from the compressed path with one
  compressed block that has a position attribute, each of the arrays of normals,
  colours, primary UVs and secondary UVs is empty or as long as the vertex array.
\<close>

theorem C8_array_lengths:
  assumes "extractMesh parsed materials textures dracoMeshes meshIdx = (ex, meshIdx')"
    and "dracoMeshes = [] \<or> (\<exists>dm. dracoMeshes = [dm] \<and> positionAttribute dm \<noteq> None)"
  shows "(normals (mesh ex) = [] \<or> length (normals (mesh ex)) = length (vertices (mesh ex)))
    \<and> (colors (mesh ex) = [] \<or> length (colors (mesh ex)) = length (vertices (mesh ex)))
    \<and> (texCoords (mesh ex) = [] \<or> length (texCoords (mesh ex)) = length (vertices (mesh ex)))
    \<and> (texCoords1 (mesh ex) = []
         \<or> length (texCoords1 (mesh ex)) = length (vertices (mesh ex)))"
proof (cases "dracoMeshes = []")
  case True
  with assms(1) have ex: "ex = extracted (fst (extractLoop materials textures
                                (initialData parsed meshIdx, Map.empty, 0, 0)))"
    by (simp add: extractMesh_def Let_def)
  from extractLoop_lengthInv [of parsed materials textures meshIdx]
  show ?thesis
    unfolding ex lengthInv_def by (auto split: if_splits)
next
  case False
  with assms(2) obtain dm where dm: "dracoMeshes = [dm]" "positionAttribute dm \<noteq> None"
    by blast
  from assms(1) have ex: "ex = decodeDracoMesh (extracted (initialData parsed meshIdx)) dm"
    by (simp add: extractMesh_def Let_def dm)
  have e: "vertices (mesh (extracted (initialData parsed meshIdx))) = []"
    "normals (mesh (extracted (initialData parsed meshIdx))) = []"
    "colors (mesh (extracted (initialData parsed meshIdx))) = []"
    "texCoords (mesh (extracted (initialData parsed meshIdx))) = []"
    "texCoords1 (mesh (extracted (initialData parsed meshIdx))) = []"
    by (simp_all add: initialData_def emptyMesh_def)
  from dm(2) show ?thesis
    unfolding ex
    using decodeDracoMesh_lengths [of "extracted (initialData parsed meshIdx)" dm]
    by (auto simp: e)
qed

theorem C8_array_lengths_witness:
  "normals (mesh (fst (extractMesh noData [] [] [dracoPositionNormal] 0))) \<noteq> []
   \<and> length (normals (mesh (fst (extractMesh noData [] [] [dracoPositionNormal] 0))))
       = length (vertices (mesh (fst (extractMesh noData [] [] [dracoPositionNormal] 0))))
   \<and> positionAttribute dracoPositionNormal \<noteq> None"
proof -
  have r: "extractMesh noData [] [] [dracoPositionNormal] 0
             = (fst (extractMesh noData [] [] [dracoPositionNormal] 0),
                snd (extractMesh noData [] [] [dracoPositionNormal] 0))"
    by simp
  have p: "positionAttribute dracoPositionNormal \<noteq> None"
    by (simp add: dracoPositionNormal_def)
  then have h: "[dracoPositionNormal] = []
                  \<or> (\<exists>dm. [dracoPositionNormal] = [dm] \<and> positionAttribute dm \<noteq> None)"
    by simp
  have n: "normals (mesh (fst (extractMesh noData [] [] [dracoPositionNormal] 0))) \<noteq> []"
    by code_simp
  from C8_array_lengths [OF r h] n p show ?thesis by simp
qed

text \<open>
  For the compressed path in general the claim fails: a block without a position
  attribute leaves a normal and no vertex, and of two blocks the second can add a
  vertex without a normal.
\<close>

theorem C8_compressed_lengths_differ:
  "vertices (mesh (fst (extractMesh noData [] [] [dracoNormalOnly] 0))) = []
   \<and> normals (mesh (fst (extractMesh noData [] [] [dracoNormalOnly] 0))) = [(0, 0, 1)]
   \<and> length (vertices
        (mesh (fst (extractMesh noData [] [] [dracoPositionNormal, dracoPositionOnly] 0)))) = 2
   \<and> length (normals
        (mesh (fst (extractMesh noData [] [] [dracoPositionNormal, dracoPositionOnly] 0)))) = 1"
  by code_simp

section \<open>Normals and primary UVs of the polygon path\<close>

lemma appendIndex_length:
  "appendIndex d t i = (d', t') \<Longrightarrow> length t \<le> length t'"
  "i < length (polygonIndices d) \<Longrightarrow> appendIndex d t i = (d', t')
     \<Longrightarrow> length t' = Suc (length t)"
  by (auto simp: appendIndex_def Let_def split: if_splits option.splits)

lemma fanLoop_appends:
  assumes "beginIndex < length (polygonIndices data)"
    and "fanLoop data tri beginIndex nextIndex = (data', tri')"
  shows "length tri < length tri'"
  using assms
proof (induction data tri beginIndex nextIndex rule: fanLoop.induct)
  case (1 data tri beginIndex nextIndex)
  obtain d1 t1 where a1: "appendIndex data tri beginIndex = (d1, t1)" by fastforce
  obtain d2 t2 where a2: "appendIndex d1 t1 nextIndex = (d2, t2)" by fastforce
  obtain d3 t3 where a3: "appendIndex d2 t2 (nextIndex + 1) = (d3, t3)" by fastforce
  have p3: "polygonIndices d3 = polygonIndices data"
    using a1 a2 a3 by (metis appendIndex_polygonIndices)
  from appendIndex_length(2) [OF "1.prems"(1) a1] appendIndex_length(1) [OF a2]
    appendIndex_length(1) [OF a3]
  have l3: "length tri < length t3" by simp
  show ?case
  proof (cases "nextIndex + 1 \<ge> length (polygonIndices d3)
                  \<or> polygonIndices d3 ! (nextIndex + 1) < 0")
    case True
    with "1.prems"(2) a1 a2 a3 have "tri' = t3"
      by (subst (asm) fanLoop.simps) (simp add: Let_def)
    with l3 show ?thesis by simp
  next
    case False
    with "1.prems"(2) a1 a2 a3 have f: "fanLoop d3 t3 beginIndex (nextIndex + 1) = (data', tri')"
      by (subst (asm) fanLoop.simps) (simp add: Let_def)
    from "1.prems"(1) p3 have "beginIndex < length (polygonIndices d3)" by simp
    from "1.IH" [OF a1 [symmetric] refl a2 [symmetric] refl refl a3 [symmetric] refl False this f]
      l3
    show ?thesis by simp
  qed
qed

lemma sourceIndexCount_update:
  assumes "k < length ps"
    and "quadTrianglesIndices part \<noteq> [] \<or> triangleIndices part \<noteq> []"
  shows "0 < sourceIndexCount (ps[k := part])"
proof -
  let ?f = "\<lambda>part. length (quadTrianglesIndices part) + length (triangleIndices part)"
  from assms(1) have "map ?f (ps[k := part]) ! k \<le> sum_list (map ?f (ps[k := part]))"
    by (intro elem_le_sum_list) simp
  moreover from assms have "0 < map ?f (ps[k := part]) ! k" by auto
  ultimately show ?thesis by (simp add: sourceIndexCount_def)
qed

lemma polygonStep_indexed:
  assumes "loopInv src (data, mtp, polygonIndex, beginIndex)"
    and "beginIndex < length (polygonIndices data)"
  shows "0 < sourceIndexCount (parts (mesh (extracted
               (fst (polygonStep materials textures (data, mtp, polygonIndex, beginIndex))))))"
proof -
  from assms(1) have pinv: "partsInv mtp (extracted data)" by (simp add: loopInv_def)
  obtain partIndex mtp1 ex where pf:
    "partFor (polygonMaterialTexture materials textures polygonIndex) mtp (extracted data)
       = (partIndex, mtp1, ex)"
    by (metis prod_cases3)
  note pp = partFor_props [OF pinv pf]
  let ?data0 = "data\<lparr>extracted := ex\<rparr>"
  let ?part = "parts (mesh ex) ! (partIndex - 1)"
  have len0: "length (parts (mesh (extracted ?data0))) = length (parts (mesh ex))" by simp
  from pp(1,2) have k: "partIndex - 1 < length (parts (mesh ex))" by simp
  show ?thesis
  proof (cases "scanEnd (polygonIndices data) beginIndex - beginIndex = 4")
    case True
    obtain d1 q1 where a1: "appendIndex ?data0 (quadIndices ?part) beginIndex = (d1, q1)"
      by fastforce
    obtain d2 q2 where a2: "appendIndex d1 q1 (beginIndex + 1) = (d2, q2)" by fastforce
    obtain d3 q3 where a3: "appendIndex d2 q2 (beginIndex + 2) = (d3, q3)" by fastforce
    obtain d4 q4 where a4: "appendIndex d3 q3 (beginIndex + 3) = (d4, q4)" by fastforce
    have "length (parts (mesh (extracted d4))) = length (parts (mesh ex))"
      using len0 a1 a2 a3 a4 by (metis appendIndex_partsLength)
    with k show ?thesis
      unfolding polygonStep_quad [OF pf True a1 a2 a3 a4]
      by (simp add: setPart_parts sourceIndexCount_update)
  next
    case False
    obtain d' t' where f: "fanLoop ?data0 (triangleIndices ?part) beginIndex (beginIndex + 1)
                             = (d', t')" by fastforce
    have "length (parts (mesh (extracted d'))) = length (parts (mesh ex))"
      by (rule fanLoop_preserves
            [where P = "\<lambda>d. length (parts (mesh (extracted d))) = length (parts (mesh ex))",
             OF _ len0 f])
         (rule appendIndex_partsLength)
    moreover from assms(2) have "beginIndex < length (polygonIndices ?data0)" by simp
    from fanLoop_appends [OF this f] have "t' \<noteq> []" by auto
    ultimately show ?thesis
      using k unfolding polygonStep_fan [OF pf False f]
      by (simp add: setPart_parts sourceIndexCount_update)
  qed
qed

text \<open>Once the polygon path has a vertex, it has an index in some part.\<close>

definition indexedInv :: "MeshData \<Rightarrow> loopState \<Rightarrow> bool" where
  "indexedInv src s \<longleftrightarrow>
     loopInv src s
     \<and> (vertices (mesh (extracted (fst s))) = []
         \<or> 0 < sourceIndexCount (parts (mesh (extracted (fst s)))))"

lemma extractLoop_indexedInv:
  "indexedInv src (extractLoop materials textures (initialData src meshIdx, Map.empty, 0, 0))"
proof (rule extractLoop_preserves)
  fix data :: MeshData and mtp :: "(int \<times> int) \<rightharpoonup> nat"
    and polygonIndex beginIndex :: nat
  assume "indexedInv src (data, mtp, polygonIndex, beginIndex)"
    and g: "beginIndex < length (polygonIndices data)"
  then have li: "loopInv src (data, mtp, polygonIndex, beginIndex)"
    by (simp add: indexedInv_def)
  from polygonStep_loopInv [OF li] polygonStep_indexed [OF li g]
  show "indexedInv src (polygonStep materials textures (data, mtp, polygonIndex, beginIndex))"
    by (simp add: indexedInv_def)
next
  show "indexedInv src (initialData src meshIdx, Map.empty, 0, 0)"
    using loopInv_initial [of src meshIdx]
    by (simp add: indexedInv_def initialState_def)
       (simp add: initialData_def emptyMesh_def)
qed

lemma buildModelMesh_log_empty:
  "snd (buildModelMesh m url) = [] \<Longrightarrow> totalIndexCount (parts m) \<noteq> 0 \<and> vertices m \<noteq> []"
  by (auto simp: buildModelMesh_def Let_def split: if_splits)


text \<open>
  Claim C10 (normals and primary UVs of the polygon path). When the polygon path
  returns a mesh with at least one vertex, the arrays of normals and of primary UVs
  are not empty and as long as the vertex array, and some part has an index: each
  new vertex of \<^verbatim>\<open>appendIndex\<close> comes with the resolved normal and primary UV of its
  corner, which are zero when the source has no normals or no UVs. Hence
  every mesh with these normals and primary UVs that \<^verbatim>\<open>buildModelMesh\<close> builds has
  the attributes \<^verbatim>\<open>NORMAL\<close>, \<^verbatim>\<open>TEXCOORD\<close> and \<^verbatim>\<open>TEXCOORD1\<close>; and the extracted mesh
  itself is built, as long as the number of its indices fits the 32-bit counter.
\<close>

theorem C10_normals_and_uvs:
  assumes "extractMesh parsed materials textures [] meshIdx = (ex, meshIdx')"
    and "vertices (mesh ex) \<noteq> []"
  shows "length (normals (mesh ex)) = length (vertices (mesh ex))
    \<and> length (texCoords (mesh ex)) = length (vertices (mesh ex))
    \<and> normals (mesh ex) \<noteq> [] \<and> texCoords (mesh ex) \<noteq> []
    \<and> 0 < sourceIndexCount (parts (mesh ex))
    \<and> (\<forall>d t i.
          i < length (polygonIndices d) \<and> indices d (cornerVertex d i) = None \<longrightarrow>
            vertices (mesh (extracted (fst (appendIndex d t i))))
              = vertices (mesh (extracted d)) @ [cornerPosition d i]
            \<and> normals (mesh (extracted (fst (appendIndex d t i))))
                = normals (mesh (extracted d)) @ [cornerNormal d i]
            \<and> texCoords (mesh (extracted (fst (appendIndex d t i))))
                = texCoords (mesh (extracted d)) @ [cornerTexCoord d i])
    \<and> (\<forall>d i. d_normals d = [] \<longrightarrow> cornerNormal d i = zero3)
    \<and> (\<forall>d i. d_texCoords d = [] \<longrightarrow> cornerTexCoord d i = zero2)
    \<and> (\<forall>m url g.
          normals m = normals (mesh ex) \<and> texCoords m = texCoords (mesh ex)
          \<and> snd (buildModelMesh m url) = []
          \<and> gpu_mesh (fst (buildModelMesh m url)) = Some g
          \<longrightarrow> attributeBuffers g NORMAL \<noteq> None \<and> attributeBuffers g TEXCOORD \<noteq> None
              \<and> attributeBuffers g TEXCOORD1 \<noteq> None)
    \<and> (sourceIndexCount (parts (mesh ex)) < 2 ^ 32 \<longrightarrow>
          (\<forall>url. snd (buildModelMesh (mesh ex) url) = []
                 \<and> (\<exists>g. gpu_mesh (fst (buildModelMesh (mesh ex) url)) = Some g
                        \<and> attributeBuffers g NORMAL \<noteq> None
                        \<and> attributeBuffers g TEXCOORD \<noteq> None
                        \<and> attributeBuffers g TEXCOORD1 \<noteq> None)))"
proof -
  let ?s = "extractLoop materials textures (initialData parsed meshIdx, Map.empty, 0, 0)"
  from assms(1) have ex: "ex = extracted (fst ?s)"
    by (simp add: extractMesh_def Let_def)
  from extractLoop_lengthInv [of parsed materials textures meshIdx]
  have ln: "length (normals (mesh ex)) = length (vertices (mesh ex))"
    and lu: "length (texCoords (mesh ex)) = length (vertices (mesh ex))"
    by (simp_all add: ex lengthInv_def)
  with assms(2) have ne: "normals (mesh ex) \<noteq> []" "texCoords (mesh ex) \<noteq> []"
    by auto
  from extractLoop_indexedInv [of parsed materials textures meshIdx] assms(2)
  have ix: "0 < sourceIndexCount (parts (mesh ex))"
    by (simp add: ex indexedInv_def)
  have attrs: "attachAttributes m NORMAL \<noteq> None \<and> attachAttributes m TEXCOORD \<noteq> None
                 \<and> attachAttributes m TEXCOORD1 \<noteq> None"
    if "normals m = normals (mesh ex)" "texCoords m = texCoords (mesh ex)" for m
    using that ne by (simp add: attach_NORMAL attach_TEXCOORD attach_TEXCOORD1)
  have built: "attributeBuffers g NORMAL \<noteq> None \<and> attributeBuffers g TEXCOORD \<noteq> None
              \<and> attributeBuffers g TEXCOORD1 \<noteq> None"
    if m: "normals m = normals (mesh ex)" "texCoords m = texCoords (mesh ex)"
      and l: "snd (buildModelMesh m url) = []"
      and g: "gpu_mesh (fst (buildModelMesh m url)) = Some g"
    for m url g
  proof -
    from buildModelMesh_log_empty [OF l]
    have v: "totalIndexCount (parts m) \<noteq> 0" "vertices m \<noteq> []" by simp_all
    from g have "attributeBuffers g = attachAttributes m"
      unfolding buildModelMesh_built [OF v] by auto
    with attrs [OF m] show ?thesis by simp
  qed
  have whole: "snd (buildModelMesh (mesh ex) url) = []
                 \<and> (\<exists>g. gpu_mesh (fst (buildModelMesh (mesh ex) url)) = Some g
                        \<and> attributeBuffers g NORMAL \<noteq> None
                        \<and> attributeBuffers g TEXCOORD \<noteq> None
                        \<and> attributeBuffers g TEXCOORD1 \<noteq> None)"
    if small: "sourceIndexCount (parts (mesh ex)) < 2 ^ 32" for url
  proof -
    from ix small have "\<not> 2 ^ 32 dvd sourceIndexCount (parts (mesh ex))"
      by (auto dest: dvd_imp_le)
    then have v: "totalIndexCount (parts (mesh ex)) \<noteq> 0"
      by (simp add: totalIndexCount_of_nat word_of_nat_eq_0_iff)
    from assms(2) attrs [of "mesh ex"] show ?thesis
      unfolding buildModelMesh_built [OF v assms(2)] by simp
  qed
  have new: "vertices (mesh (extracted (fst (appendIndex d t i))))
              = vertices (mesh (extracted d)) @ [cornerPosition d i]
            \<and> normals (mesh (extracted (fst (appendIndex d t i))))
                = normals (mesh (extracted d)) @ [cornerNormal d i]
            \<and> texCoords (mesh (extracted (fst (appendIndex d t i))))
                = texCoords (mesh (extracted d)) @ [cornerTexCoord d i]"
    if "i < length (polygonIndices d)" "indices d (cornerVertex d i) = None" for d t i
    by (simp add: appendIndex_new [OF that])
  have nonneg: "0 \<le> cornerVertexIndex d i" for d i
    by (simp add: cornerVertexIndex_def Let_def)
  have zn: "cornerNormal d i = zero3" if "d_normals d = []" for d i
    using that nonneg [of d i] by (auto simp: cornerNormal_def Let_def)
  have zu: "cornerTexCoord d i = zero2" if "d_texCoords d = []" for d i
    using that by (auto simp: cornerTexCoord_def Let_def)
  from ln lu ne ix new zn zu built whole show ?thesis by blast
qed

theorem C10_normals_and_uvs_witness:
  "vertices (mesh (fst (extractMesh quadData [] [] [] 0))) \<noteq> []
   \<and> length (normals (mesh (fst (extractMesh quadData [] [] [] 0)))) = 4
   \<and> length (texCoords (mesh (fst (extractMesh quadData [] [] [] 0)))) = 4
   \<and> snd (buildModelMesh (mesh (fst (extractMesh quadData [] [] [] 0))) ''quad.fbx'') = []
   \<and> d_normals quadData = [] \<and> cornerNormal quadData 0 = zero3"
proof -
  let ?ex = "fst (extractMesh quadData [] [] [] 0)"
  have r: "extractMesh quadData [] [] [] 0 = (?ex, snd (extractMesh quadData [] [] [] 0))"
    by simp
  have v: "vertices (mesh ?ex) = [(0, 0, 0), (1, 0, 0), (1, 1, 0), (0, 1, 0)]"
    by code_simp
  then have h: "vertices (mesh ?ex) \<noteq> []" by simp
  have c: "sourceIndexCount (parts (mesh ?ex)) = 6"
    by code_simp
  have n: "d_normals quadData = []"
    by (simp add: quadData_def noData_def)
  from C10_normals_and_uvs [OF r h] have z: "cornerNormal quadData 0 = zero3"
    using n by blast
  from C10_normals_and_uvs [OF r h]
  have "length (normals (mesh ?ex)) = length (vertices (mesh ?ex))"
    and "length (texCoords (mesh ?ex)) = length (vertices (mesh ?ex))"
    and "sourceIndexCount (parts (mesh ?ex)) < 2 ^ 32
           \<longrightarrow> snd (buildModelMesh (mesh ?ex) ''quad.fbx'') = []"
    by blast+
  with h n z show ?thesis
    by (simp add: v c)
qed

section \<open>The stored indices are in range\<close>

text \<open>
  Every index in the vertex hash is a position of the array of normals, so that
  \<^verbatim>\<open>normals[*it] += normal\<close> in \<^verbatim>\<open>appendIndex\<close> never writes out of range.
\<close>

definition storedInRange :: "MeshData \<Rightarrow> bool" where
  "storedInRange d \<longleftrightarrow>
     length (normals (mesh (extracted d))) = length (vertices (mesh (extracted d)))
     \<and> (\<forall>v it. indices d v = Some it \<longrightarrow> it < length (normals (mesh (extracted d))))"

lemma storedInRange_initial: "storedInRange (initialData src meshIdx)"
  by (simp add: storedInRange_def initialData_def emptyMesh_def)

lemma appendIndex_storedInRange:
  assumes "storedInRange d" and "appendIndex d t i = (d', t')"
  shows "storedInRange d'"
proof (cases "i < length (polygonIndices d)")
  case False
  with assms show ?thesis by (simp add: appendIndex_skip)
next
  case True
  show ?thesis
  proof (cases "indices d (cornerVertex d i)")
    case None
    from appendIndex_new [OF True None, of t] assms(2)
    have "indices d' = (indices d)(cornerVertex d i \<mapsto> length (vertices (mesh (extracted d))))"
      and "normals (mesh (extracted d')) = normals (mesh (extracted d)) @ [cornerNormal d i]"
      and "vertices (mesh (extracted d')) = vertices (mesh (extracted d)) @ [cornerPosition d i]"
      by auto
    with assms(1) show ?thesis
      by (auto simp: storedInRange_def less_Suc_eq split: if_splits)
  next
    case (Some it)
    from appendIndex_old [OF True Some, of t] assms(2)
    have "indices d' = indices d"
      and "length (normals (mesh (extracted d'))) = length (normals (mesh (extracted d)))"
      and "vertices (mesh (extracted d')) = vertices (mesh (extracted d))"
      by auto
    with assms(1) show ?thesis by (auto simp: storedInRange_def)
  qed
qed


lemma polygonStep_preserves:
  fixes P :: "MeshData \<Rightarrow> bool"
  assumes app: "\<And>d t i d' t'. P d \<Longrightarrow> appendIndex d t i = (d', t') \<Longrightarrow> P d'"
    and upd: "\<And>d ex' ps. P d \<Longrightarrow> mesh ex' = (mesh (extracted d))\<lparr>parts := ps\<rparr>
                \<Longrightarrow> P (d\<lparr>extracted := ex'\<rparr>)"
    and "P data"
    and "polygonStep materials textures (data, mtp, polygonIndex, beginIndex)
           = (data', mtp', polygonIndex', beginIndex')"
  shows "P data'"
proof -
  obtain partIndex mtp1 ex where pf:
    "partFor (polygonMaterialTexture materials textures polygonIndex) mtp (extracted data)
       = (partIndex, mtp1, ex)"
    by (metis prod_cases3)
  let ?data0 = "data\<lparr>extracted := ex\<rparr>"
  let ?part = "parts (mesh ex) ! (partIndex - 1)"
  have p0: "P ?data0"
    by (rule upd [OF assms(3) partFor_mesh [OF pf]])
  show ?thesis
  proof (cases "scanEnd (polygonIndices data) beginIndex - beginIndex = 4")
    case True
    obtain d1 q1 where a1: "appendIndex ?data0 (quadIndices ?part) beginIndex = (d1, q1)"
      by fastforce
    obtain d2 q2 where a2: "appendIndex d1 q1 (beginIndex + 1) = (d2, q2)" by fastforce
    obtain d3 q3 where a3: "appendIndex d2 q2 (beginIndex + 2) = (d3, q3)" by fastforce
    obtain d4 q4 where a4: "appendIndex d3 q3 (beginIndex + 3) = (d4, q4)" by fastforce
    have "P d4"
      using app [OF app [OF app [OF app [OF p0 a1] a2] a3] a4] .
    then show ?thesis
      using assms(4) unfolding polygonStep_quad [OF pf True a1 a2 a3 a4]
      by (auto intro: upd simp: setPart_parts)
  next
    case False
    obtain d' t' where f: "fanLoop ?data0 (triangleIndices ?part) beginIndex (beginIndex + 1)
                             = (d', t')" by fastforce
    have "P d'"
      by (rule fanLoop_preserves [where P = P, OF _ p0 f]) (rule app)
    then show ?thesis
      using assms(4) unfolding polygonStep_fan [OF pf False f]
      by (auto intro: upd simp: setPart_parts)
  qed
qed

lemma stored_index_in_range:
  "storedInRange (fst (loopStateAt materials textures (initialState src meshIdx) n))"
proof (induction n)
  case 0
  show ?case by (simp add: initialState_def storedInRange_initial)
next
  case (Suc n)
  let ?s = "loopStateAt materials textures (initialState src meshIdx) n"
  obtain data mtp polygonIndex beginIndex where s: "?s = (data, mtp, polygonIndex, beginIndex)"
    by (metis prod_cases4)
  with Suc have d: "storedInRange data" by simp
  have "storedInRange (fst (polygonStep materials textures (data, mtp, polygonIndex, beginIndex)))"
  proof (rule polygonStep_preserves [where P = storedInRange, OF _ _ d])
    show "\<And>d t i d' t'. storedInRange d \<Longrightarrow> appendIndex d t i = (d', t') \<Longrightarrow> storedInRange d'"
      by (rule appendIndex_storedInRange)
    show "\<And>d ex' ps. storedInRange d \<Longrightarrow> mesh ex' = (mesh (extracted d))\<lparr>parts := ps\<rparr>
            \<Longrightarrow> storedInRange (d\<lparr>extracted := ex'\<rparr>)"
      by (auto simp: storedInRange_def)
    show "polygonStep materials textures (data, mtp, polygonIndex, beginIndex)
            = (fst (polygonStep materials textures (data, mtp, polygonIndex, beginIndex)),
               fst (snd (polygonStep materials textures (data, mtp, polygonIndex, beginIndex))),
               fst (snd (snd (polygonStep materials textures
                                (data, mtp, polygonIndex, beginIndex)))),
               snd (snd (snd (polygonStep materials textures
                                (data, mtp, polygonIndex, beginIndex)))))"
      by simp
  qed
  with d s show ?case by (simp add: Let_def)
qed


text \<open>The loop over the polygons stops in one of the states \<open>loopStateAt\<close>.\<close>

lemma loopStateAt_shift:
  "loopStateAt materials textures s0 (Suc n)
     = loopStateAt materials textures (loopStateAt materials textures s0 1) n"
  by (induction n) (simp_all add: Let_def)

lemma extractLoop_loopStateAt:
  "\<exists>n. extractLoop materials textures s = loopStateAt materials textures s n"
proof (induction materials textures s rule: extractLoop.induct)
  case (1 materials textures data mtp polygonIndex beginIndex)
  let ?s = "(data, mtp, polygonIndex, beginIndex)"
  show ?case
  proof (cases "beginIndex < length (polygonIndices data)")
    case True
    from "1.IH" [OF True] obtain n where
      n: "extractLoop materials textures (polygonStep materials textures ?s)
            = loopStateAt materials textures (polygonStep materials textures ?s) n"
      by blast
    from True have one: "loopStateAt materials textures ?s 1 = polygonStep materials textures ?s"
      by simp
    from True have "extractLoop materials textures ?s
                      = extractLoop materials textures (polygonStep materials textures ?s)"
      by (subst extractLoop.simps) simp
    also have "\<dots> = loopStateAt materials textures ?s (Suc n)"
      unfolding n by (subst loopStateAt_shift) (simp only: one)
    finally show ?thesis by blast
  next
    case False
    then have "extractLoop materials textures ?s = loopStateAt materials textures ?s 0"
      by (subst extractLoop.simps) simp
    then show ?thesis by blast
  qed
qed

end
